theory Spec2Isabelle
  imports Main "HOL-Library.Word"
begin

unbundle bit_operations_syntax

section \<open>SimData data types (src/lib/resources/data/data-types.ts)\<close>

text \<open>
  The enum \<open>SimDataType\<close>, in the order of the source (the order is the numeric code,
  0 to 22).
\<close>

datatype SimDataType =
    Boolean | Character | Int8 | UInt8 | Int16 | UInt16 | Int32 | UInt32
  | Int64 | UInt64 | Float | String | HashedString | Object | Vector
  | Float2 | Float3 | Float4 | TableSetReference | ResourceKey
  | LocalizationKey | Variant | Undefined

datatype error =
    OutOfBounds
  | NotAPackageFile
  | BadDbpfVersion nat nat
  | BadUnused4 nat
  | DataTypeNotRecognized
  | UnknownTypeCode nat
  | UnknownSchemaOffset int
  | ResourceError nat
  | CannotSerializeRaw
  | DecompressionFailure
  | ValueOutOfRange
  | CacheProblem
  | CellInvalid
  | TypeError
  | NeverSettles
  | NotAStringTable
  | BadStblVersion nat

text \<open>\<open>SimDataTypeUtils.getAlignment\<close>: a \<open>switch\<close> whose default returns 1.\<close>

fun getAlignment :: "SimDataType \<Rightarrow> nat" where
  "getAlignment Boolean = 1"
| "getAlignment Character = 1"
| "getAlignment Int8 = 1"
| "getAlignment UInt8 = 1"
| "getAlignment Int16 = 2"
| "getAlignment UInt16 = 2"
| "getAlignment Int32 = 4"
| "getAlignment UInt32 = 4"
| "getAlignment Float = 4"
| "getAlignment String = 4"
| "getAlignment HashedString = 4"
| "getAlignment Object = 4"
| "getAlignment Vector = 4"
| "getAlignment Float2 = 4"
| "getAlignment Float3 = 4"
| "getAlignment Float4 = 4"
| "getAlignment LocalizationKey = 4"
| "getAlignment Variant = 4"
| "getAlignment Int64 = 8"
| "getAlignment UInt64 = 8"
| "getAlignment TableSetReference = 8"
| "getAlignment ResourceKey = 8"
| "getAlignment Undefined = 1"

text \<open>\<open>SimDataTypeUtils.getBytes\<close>: a \<open>switch\<close> whose default throws.\<close>

fun getBytes :: "SimDataType \<Rightarrow> error + nat" where
  "getBytes Boolean = Inr 1"
| "getBytes Character = Inr 1"
| "getBytes Int8 = Inr 1"
| "getBytes UInt8 = Inr 1"
| "getBytes Int16 = Inr 2"
| "getBytes UInt16 = Inr 2"
| "getBytes Int32 = Inr 4"
| "getBytes UInt32 = Inr 4"
| "getBytes Float = Inr 4"
| "getBytes String = Inr 4"
| "getBytes Object = Inr 4"
| "getBytes LocalizationKey = Inr 4"
| "getBytes Int64 = Inr 8"
| "getBytes UInt64 = Inr 8"
| "getBytes HashedString = Inr 8"
| "getBytes Vector = Inr 8"
| "getBytes Float2 = Inr 8"
| "getBytes TableSetReference = Inr 8"
| "getBytes Variant = Inr 8"
| "getBytes Float3 = Inr 12"
| "getBytes Float4 = Inr 16"
| "getBytes ResourceKey = Inr 16"
| "getBytes Undefined = Inl DataTypeNotRecognized"

text \<open>
  The per-type table of the specification, row by row (its six rows that give a type a
  width and an alignment). \<open>None\<close>: the table has no row for the type. The table's
  last row ("container types", width 4, no alignment) gives Vector, Float2, Float3,
  Float4 and Variant a second width and is not part of these two functions.
\<close>

fun spec_table_bytes :: "SimDataType \<Rightarrow> nat option" where
  "spec_table_bytes t =
     (if t \<in> {Boolean, Int8, UInt8, Character} then Some 1
      else if t \<in> {Int16, UInt16} then Some 2
      else if t \<in> {Int32, UInt32, Float, String, LocalizationKey, Object} then Some 4
      else if t \<in> {Int64, UInt64, HashedString, Vector, Float2, TableSetReference, Variant}
        then Some 8
      else if t = Float3 then Some 12
      else if t \<in> {Float4, ResourceKey} then Some 16
      else None)"

fun spec_table_alignment :: "SimDataType \<Rightarrow> nat option" where
  "spec_table_alignment t =
     (if t \<in> {Boolean, Int8, UInt8, Character} then Some 1
      else if t \<in> {Int16, UInt16} then Some 2
      else if t \<in> {Int32, UInt32, Float, String, LocalizationKey, Object} then Some 4
      else if t \<in> {Int64, UInt64, TableSetReference} then Some 8
      else if t \<in> {HashedString, Vector, Float2, Variant} then Some 4
      else if t = Float3 then Some 4
      else if t \<in> {Float4, ResourceKey} then Some 8
      else None)"

section \<open>The binary decoder\<close>

text \<open>
  \<open>BinaryDecoder\<close> is a class of the package \<open>@s4tk/encoding\<close>, outside this
  repository; it is modelled as the specification's primitive codec describes it: a
  cursor over an immutable byte buffer, little-endian fixed-width reads that fail when
  they would exceed the buffer, and \<open>seek\<close>, \<open>skip\<close> and \<open>tell\<close> that only move or
  read the cursor. The cursor is a JavaScript number, so it is an \<open>int\<close>: a relative
  offset can move it below zero, and every read there fails.
\<close>

type_synonym byte = "8 word"

record BinaryDecoder =
  buffer :: "byte list"
  offset :: int

definition ebind :: "error + 'a \<Rightarrow> ('a \<Rightarrow> error + 'b) \<Rightarrow> error + 'b" where
  "ebind m f = (case m of Inl e \<Rightarrow> Inl e | Inr x \<Rightarrow> f x)"

definition newDecoder :: "byte list \<Rightarrow> BinaryDecoder" where
  "newDecoder b = \<lparr>buffer = b, offset = 0\<rparr>"

definition tell :: "BinaryDecoder \<Rightarrow> int" where
  "tell d = offset d"

definition seek :: "BinaryDecoder \<Rightarrow> int \<Rightarrow> BinaryDecoder" where
  "seek d p = d\<lparr>offset := p\<rparr>"

definition skip :: "BinaryDecoder \<Rightarrow> int \<Rightarrow> BinaryDecoder" where
  "skip d n = d\<lparr>offset := offset d + n\<rparr>"

definition readBytes :: "BinaryDecoder \<Rightarrow> nat \<Rightarrow> error + (byte list \<times> BinaryDecoder)" where
  "readBytes d n =
     (if 0 \<le> offset d \<and> nat (offset d) + n \<le> length (buffer d)
      then Inr (take n (drop (nat (offset d)) (buffer d)), d\<lparr>offset := offset d + int n\<rparr>)
      else Inl OutOfBounds)"

text \<open>The value of a little-endian byte sequence, as a word of the width that is read.\<close>

fun le_word :: "byte list \<Rightarrow> 'a::len word" where
  "le_word [] = 0"
| "le_word (b # bs) = ucast b + push_bit 8 (le_word bs)"

definition readWord :: "nat \<Rightarrow> BinaryDecoder \<Rightarrow> error + ('a::len word \<times> BinaryDecoder)" where
  "readWord n d = ebind (readBytes d n) (\<lambda>(bs, d'). Inr (le_word bs, d'))"

definition uint8 :: "BinaryDecoder \<Rightarrow> error + (8 word \<times> BinaryDecoder)" where
  "uint8 = readWord 1"

definition uint16 :: "BinaryDecoder \<Rightarrow> error + (16 word \<times> BinaryDecoder)" where
  "uint16 = readWord 2"

definition uint32 :: "BinaryDecoder \<Rightarrow> error + (32 word \<times> BinaryDecoder)" where
  "uint32 = readWord 4"

definition uint64 :: "BinaryDecoder \<Rightarrow> error + (64 word \<times> BinaryDecoder)" where
  "uint64 = readWord 8"

text \<open>\<open>int32\<close>: the same four bytes, read as two's complement.\<close>

definition int32 :: "BinaryDecoder \<Rightarrow> error + (int \<times> BinaryDecoder)" where
  "int32 d = ebind (uint32 d) (\<lambda>(w, d'). Inr (sint w, d'))"

text \<open>
  \<open>charsUtf8 n\<close> reads exactly \<open>n\<close> bytes as UTF-8. The model returns the bytes; the
  source compares the result with ASCII literals only, which is a comparison of bytes.
\<close>

definition charsUtf8 :: "BinaryDecoder \<Rightarrow> nat \<Rightarrow> error + (byte list \<times> BinaryDecoder)" where
  "charsUtf8 d n = readBytes d n"

text \<open>\<open>slice n\<close>: the next \<open>n\<close> bytes, bounds-checked, the cursor moved past them.\<close>

definition slice :: "BinaryDecoder \<Rightarrow> nat \<Rightarrow> error + (byte list \<times> BinaryDecoder)" where
  "slice d n = readBytes d n"

section \<open>The DBPF reader (src/lib/packages/serialization/read-dbpf.ts)\<close>

record resource_key =
  rk_type :: "32 word"
  rk_group :: "32 word"
  rk_instance :: "64 word"

record DbpfHeader =
  mnIndexRecordEntryCount :: "32 word"
  mnIndexRecordPositionLow :: "32 word"
  mnIndexRecordPosition :: "64 word"

record DbpfFlags =
  constantTypeId :: "32 word option"
  constantGroupId :: "32 word option"
  constantInstanceIdEx :: "32 word option"

text \<open>\<open>mnCompressionType\<close> is \<open>None\<close> where the source leaves the field undefined.\<close>

record IndexEntry =
  key :: resource_key
  mnPosition :: "32 word"
  mnSize :: "32 word"
  mnSizeDecompressed :: "32 word"
  mnCompressionType :: "16 word option"

type_synonym ResourceFilter = "32 word \<Rightarrow> 32 word \<Rightarrow> 64 word \<Rightarrow> bool"

text \<open>
  \<open>PackageFileReadingOptions\<close>. An absent options object, or an absent field, is the
  field's falsy value: \<open>False\<close>, or \<open>None\<close> for the filter.
\<close>

record PackageFileReadingOptions =
  recoveryMode :: bool
  resourceFilter :: "ResourceFilter option"
  decompressBuffers :: bool
  loadRaw :: bool
  saveBuffer :: bool

text \<open>The literal "DBPF" as bytes.\<close>

definition DBPF_magic :: "byte list" where
  "DBPF_magic = [0x44, 0x42, 0x50, 0x46]"

text \<open>
  \<open>CompressionType.DeletedRecord\<close>, a constant of the package \<open>@s4tk/compression\<close>
  (outside this repository).
\<close>

definition DeletedRecord :: "16 word" where
  "DeletedRecord = 0xFFE0"

text \<open>
  \<open>readDbpfHeader\<close>. The source's test \<open>major !== 2 || minor !== 1\<close> is written as the
  negation of \<open>major = 2 \<and> minor = 1\<close>.
\<close>

definition readDbpfHeader :: "BinaryDecoder \<Rightarrow> bool \<Rightarrow> error + (DbpfHeader \<times> BinaryDecoder)" where
  "readDbpfHeader d recovery =
     ebind
       (if recovery then Inr (skip d 12)
        else ebind (charsUtf8 d 4) (\<lambda>(magic, d1).
          if magic \<noteq> DBPF_magic then Inl NotAPackageFile
          else ebind (uint32 d1) (\<lambda>(major, d2).
               ebind (uint32 d2) (\<lambda>(minor, d3).
                 if \<not> (major = 2 \<and> minor = 1)
                 then Inl (BadDbpfVersion (unat major) (unat minor))
                 else Inr d3))))
       (\<lambda>d4.
         ebind (uint32 (skip d4 24)) (\<lambda>(count, d5).
         ebind (uint32 d5) (\<lambda>(low, d6).
         ebind
           (if recovery then Inr (skip (skip d6 16) 4)
            else ebind (uint32 (skip d6 16)) (\<lambda>(unused4, d7).
              if unused4 \<noteq> 3 then Inl (BadUnused4 (unat unused4)) else Inr d7))
           (\<lambda>d8.
             ebind (uint64 d8) (\<lambda>(pos, d9).
               Inr (\<lparr>mnIndexRecordEntryCount = count,
                     mnIndexRecordPositionLow = low,
                     mnIndexRecordPosition = pos\<rparr>, skip d9 24))))))"

text \<open>\<open>if (flags & bit) field = decoder.uint32()\<close>\<close>

definition readIfSet :: "bool \<Rightarrow> BinaryDecoder \<Rightarrow> error + (32 word option \<times> BinaryDecoder)" where
  "readIfSet c d = (if c then ebind (uint32 d) (\<lambda>(v, d'). Inr (Some v, d')) else Inr (None, d))"

definition readDbpfFlags :: "BinaryDecoder \<Rightarrow> error + (DbpfFlags \<times> BinaryDecoder)" where
  "readDbpfFlags d =
     ebind (uint8 d) (\<lambda>(flags, d1).
     ebind (readIfSet (flags AND 1 \<noteq> 0) (skip d1 3)) (\<lambda>(t, d2).
     ebind (readIfSet (flags AND 2 \<noteq> 0) d2) (\<lambda>(g, d3).
     ebind (readIfSet (flags AND 4 \<noteq> 0) d3) (\<lambda>(i, d4).
       Inr (\<lparr>constantTypeId = t, constantGroupId = g, constantInstanceIdEx = i\<rparr>, d4)))))"

text \<open>\<open>constant ?? decoder.uint32()\<close>\<close>

definition constOrRead :: "32 word option \<Rightarrow> BinaryDecoder \<Rightarrow> error + (32 word \<times> BinaryDecoder)" where
  "constOrRead c d = (case c of Some v \<Rightarrow> Inr (v, d) | None \<Rightarrow> uint32 d)"

text \<open>
  The callback of \<open>readDbpfIndex\<close>, one index record, in its three parts: the key, the
  branch of a record the filter rejects, and the branch of a record that is read.
  \<open>None\<close> is the callback's \<open>return;\<close> (a skipped or a deleted record).
\<close>

definition readEntryKey :: "DbpfFlags \<Rightarrow> BinaryDecoder \<Rightarrow> error + (resource_key \<times> BinaryDecoder)" where
  "readEntryKey flags d =
     ebind (constOrRead (constantTypeId flags) d) (\<lambda>(ktype, d1).
     ebind (constOrRead (constantGroupId flags) d1) (\<lambda>(kgroup, d2).
     ebind (constOrRead (constantInstanceIdEx flags) d2) (\<lambda>(mInstanceEx, d3).
     ebind (uint32 d3) (\<lambda>(mInstance, d4).
       Inr (\<lparr>rk_type = ktype, rk_group = kgroup,
             rk_instance = push_bit 32 (ucast mInstanceEx) + ucast mInstance\<rparr>, d4)))))"

definition skipEntryBody :: "BinaryDecoder \<Rightarrow> error + (IndexEntry option \<times> BinaryDecoder)" where
  "skipEntryBody d4 =
     ebind (uint32 (skip d4 4)) (\<lambda>(sizeAndCompression, d5).
       let isCompressed = (drop_bit 31 sizeAndCompression = 1) in
       Inr (None, skip d5 (if isCompressed then 8 else 6)))"

definition readEntryBody ::
  "resource_key \<Rightarrow> BinaryDecoder \<Rightarrow> error + (IndexEntry option \<times> BinaryDecoder)" where
  "readEntryBody k d4 =
     ebind (uint32 d4) (\<lambda>(pos, d5).
     ebind (uint32 d5) (\<lambda>(sizeAndCompression, d6).
       let isCompressed = (drop_bit 31 sizeAndCompression = 1) in
       ebind (uint32 d6) (\<lambda>(sizeDecompressed, d7).
       ebind (if isCompressed
              then ebind (uint16 d7) (\<lambda>(c, d8). Inr (Some c, d8))
              else Inr (None, d7)) (\<lambda>(ctype, d8).
         let d9 = skip d8 2 in
         if ctype = Some DeletedRecord then Inr (None, d9)
         else Inr (Some \<lparr>key = k,
                          mnPosition = pos,
                          mnSize = sizeAndCompression AND 0x7FFFFFFF,
                          mnSizeDecompressed = sizeDecompressed,
                          mnCompressionType = ctype\<rparr>, d9)))))"

text \<open>\<open>filter && !filter(key.type, key.group, key.instance)\<close>\<close>

definition rejected :: "ResourceFilter option \<Rightarrow> resource_key \<Rightarrow> bool" where
  "rejected resFilter k =
     (case resFilter of None \<Rightarrow> False
      | Some f \<Rightarrow> \<not> f (rk_type k) (rk_group k) (rk_instance k))"

definition readIndexEntry ::
  "DbpfFlags \<Rightarrow> ResourceFilter option \<Rightarrow> BinaryDecoder
     \<Rightarrow> error + (IndexEntry option \<times> BinaryDecoder)" where
  "readIndexEntry flags resFilter d =
     ebind (readEntryKey flags d) (\<lambda>(k, d4).
       if rejected resFilter k then skipEntryBody d4 else readEntryBody k d4)"

text \<open>
  Modelled from the spec: \<open>makeList\<close> of common/helpers is not among the sources. It is
  called as \<open>makeList(count, fn, true)\<close>, "true to skip nulls/undefineds": the
  callback runs \<open>count\<close> times, in order, and the results that are not null are
  collected ("read exactly count index entries", a dropped entry is absent from the
  result).
\<close>

fun makeList ::
  "nat \<Rightarrow> (BinaryDecoder \<Rightarrow> error + ('a option \<times> BinaryDecoder)) \<Rightarrow> BinaryDecoder
     \<Rightarrow> error + ('a list \<times> BinaryDecoder)" where
  "makeList 0 fn d = Inr ([], d)"
| "makeList (Suc n) fn d =
     ebind (fn d) (\<lambda>(x, d').
     ebind (makeList n fn d') (\<lambda>(xs, d'').
       Inr ((case x of None \<Rightarrow> xs | Some v \<Rightarrow> v # xs), d'')))"

definition readDbpfIndex ::
  "BinaryDecoder \<Rightarrow> DbpfHeader \<Rightarrow> DbpfFlags \<Rightarrow> ResourceFilter option
     \<Rightarrow> error + (IndexEntry list \<times> BinaryDecoder)" where
  "readDbpfIndex d header flags resFilter =
     makeList (unat (mnIndexRecordEntryCount header)) (readIndexEntry flags resFilter) d"

text \<open>\<open>header.mnIndexRecordPosition || header.mnIndexRecordPositionLow\<close>\<close>

definition indexRecordPosition :: "DbpfHeader \<Rightarrow> int" where
  "indexRecordPosition header =
     (if mnIndexRecordPosition header \<noteq> 0 then uint (mnIndexRecordPosition header)
      else uint (mnIndexRecordPositionLow header))"

text \<open>
  A \<open>CompressedBuffer\<close> of \<open>@s4tk/compression\<close>: bytes, how they are compressed and
  their decompressed size. The compression type is a 16-bit code; it is \<open>None\<close> where
  the source copies an undefined \<open>mnCompressionType\<close> into it.
\<close>

record CompressedBuffer =
  cb_buffer :: "byte list"
  compressionType :: "16 word option"
  sizeDecompressed :: nat

text \<open>Constants of the enum \<open>CompressionType\<close> of \<open>@s4tk/compression\<close>.\<close>

definition Uncompressed :: "16 word" where
  "Uncompressed = 0x0000"

definition ZLIB :: "16 word" where
  "ZLIB = 0x5A42"

text \<open>The reason strings of a raw resource; the template strings keep their argument.\<close>

datatype raw_reason =
    CouldNotDecompress "16 word option"
  | AllResourcesLoadedRaw
  | UnregisteredResourceType "32 word"
  | FailedToParseResource "32 word"
  | GivenReason string

text \<open>
  The state of a \<open>RawResource\<close> (src/unnamed/part_003) with the fields of its base class
  \<open>WritableModel\<close> (src/lib/base/writable-model.ts): \<open>_bufferCache\<close> (absent is
  \<open>None\<close>), \<open>_defaultCompressionType\<close> and \<open>reason\<close>.
\<close>

record RawResource =
  bufferCache :: "CompressedBuffer option"
  defaultCompressionType :: "16 word"
  reason :: "raw_reason option"

text \<open>
  The constructor of \<open>RawResource\<close> over the constructor of \<open>WritableModel\<close>:
  \<open>if (options?.initialBufferCache) this._bufferCache = options.initialBufferCache\<close>
  and \<open>options?.defaultCompressionType ?? CompressionType.ZLIB\<close>. The wrapper is an
  option because \<open>getResource\<close> below can pass an unassigned variable.
\<close>

definition newRawResource ::
  "CompressedBuffer option \<Rightarrow> raw_reason option \<Rightarrow> 16 word option \<Rightarrow> RawResource" where
  "newRawResource bufferWrapper rsn dct =
     \<lparr>bufferCache = bufferWrapper,
      defaultCompressionType = (case dct of None \<Rightarrow> ZLIB | Some c \<Rightarrow> c),
      reason = rsn\<rparr>"

text \<open>The options object \<open>getResource\<close> hands to the resource registry.\<close>

record ResourceOptions =
  ro_defaultCompressionType :: "16 word option"
  ro_initialBufferCache :: CompressedBuffer
  ro_recoveryMode :: bool
  ro_saveBuffer :: bool

text \<open>
  What the sources call outside this repository's sources: \<open>decompressBuffer\<close> and
  \<open>compressBuffer\<close> of \<open>@s4tk/compression\<close>, and
  \<open>ResourceRegistry.generateResourceFromBuffer\<close> (which returns a resource, or nothing
  for a type that is not registered); each may throw.
\<close>

record 'r externals =
  decompressBuffer :: "byte list \<Rightarrow> 16 word option \<Rightarrow> error + byte list"
  compressBuffer :: "byte list \<Rightarrow> 16 word \<Rightarrow> error + byte list"
  generateResourceFromBuffer :: "32 word \<Rightarrow> byte list \<Rightarrow> ResourceOptions \<Rightarrow> error + 'r option"

datatype 'r Resource = Raw RawResource | Registered 'r

text \<open>
  \<open>getResource\<close>. The first part gives the wrapper (\<open>None\<close>: the variable was never
  assigned) and the raw reason (\<open>None\<close>: undefined), or rethrows.
\<close>

definition getResource ::
  "'r externals \<Rightarrow> IndexEntry \<Rightarrow> byte list \<Rightarrow> PackageFileReadingOptions
     \<Rightarrow> error + 'r Resource" where
  "getResource ext entry rawBuffer options =
     ebind
       (if decompressBuffers options then
          (case decompressBuffer ext rawBuffer (mnCompressionType entry) of
             Inr b \<Rightarrow>
               Inr (Some \<lparr>cb_buffer = b, compressionType = Some Uncompressed,
                           sizeDecompressed = unat (mnSizeDecompressed entry)\<rparr>, None)
           | Inl e \<Rightarrow>
               if recoveryMode options
               then Inr (None, Some (CouldNotDecompress (mnCompressionType entry)))
               else Inl e)
        else
          Inr (Some \<lparr>cb_buffer = rawBuffer, compressionType = mnCompressionType entry,
                      sizeDecompressed = unat (mnSizeDecompressed entry)\<rparr>, None))
       (\<lambda>(bufferWrapper, rawReason).
         if loadRaw options \<or> rawReason \<noteq> None then
           Inr (Raw (newRawResource bufferWrapper
                  (Some (case rawReason of Some r \<Rightarrow> r | None \<Rightarrow> AllResourcesLoadedRaw))
                  (mnCompressionType entry)))
         else
           (case bufferWrapper of
              None \<Rightarrow> Inl TypeError
            | Some w \<Rightarrow>
                ebind
                  (if compressionType w = Some Uncompressed then Inr (cb_buffer w)
                   else decompressBuffer ext rawBuffer (mnCompressionType entry))
                  (\<lambda>decompressedBuffer.
                    (case generateResourceFromBuffer ext (rk_type (key entry)) decompressedBuffer
                            \<lparr>ro_defaultCompressionType = mnCompressionType entry,
                             ro_initialBufferCache = w,
                             ro_recoveryMode = recoveryMode options,
                             ro_saveBuffer = saveBuffer options\<rparr> of
                       Inr (Some resource) \<Rightarrow> Inr (Registered resource)
                     | Inr None \<Rightarrow>
                         Inr (Raw (newRawResource (Some w)
                                (Some (UnregisteredResourceType (rk_type (key entry)))) None))
                     | Inl e \<Rightarrow>
                         if recoveryMode options
                         then Inr (Raw (newRawResource (Some w)
                                (Some (FailedToParseResource (rk_type (key entry)))) None))
                         else Inl e))))"

text \<open>
  The \<open>index.map\<close> of \<open>readDbpf\<close>: for each entry, seek to its position, slice its
  size, build the resource; the first exception ends the decoding.
\<close>

fun readPayloads ::
  "'r externals \<Rightarrow> PackageFileReadingOptions \<Rightarrow> BinaryDecoder \<Rightarrow> IndexEntry list
     \<Rightarrow> error + (resource_key \<times> 'r Resource) list" where
  "readPayloads ext options d [] = Inr []"
| "readPayloads ext options d (indexEntry # rest) =
     ebind (slice (seek d (uint (mnPosition indexEntry))) (unat (mnSize indexEntry)))
       (\<lambda>(compressedBuffer, d').
     ebind (getResource ext indexEntry compressedBuffer options) (\<lambda>v.
     ebind (readPayloads ext options d' rest) (\<lambda>vs.
       Inr ((key indexEntry, v) # vs))))"

definition readDbpf ::
  "'r externals \<Rightarrow> byte list \<Rightarrow> PackageFileReadingOptions
     \<Rightarrow> error + (resource_key \<times> 'r Resource) list" where
  "readDbpf ext buf options =
     ebind (readDbpfHeader (newDecoder buf) (recoveryMode options)) (\<lambda>(header, d1).
     ebind (readDbpfFlags (seek d1 (indexRecordPosition header))) (\<lambda>(flags, d3).
     ebind (readDbpfIndex d3 header flags (resourceFilter options)) (\<lambda>(index, d4).
       readPayloads ext options d4 index)))"

text \<open>
  \<open>streamBuffer\<close> opens a read stream on the file at \<open>pos\<close> with a chunk size of
  \<open>size\<close> and resolves with the first chunk: the bytes of the file from \<open>pos\<close>, at most
  \<open>size\<close> of them. \<open>file\<close> is the content of the file at \<open>filepath\<close>. Where
  there is no byte to read (the position is at or past the end of the file, or the
  size is 0) the stream ends without a chunk and the promise is never resolved:
  \<open>NeverSettles\<close>.
\<close>

definition streamBuffer :: "byte list \<Rightarrow> int \<Rightarrow> nat \<Rightarrow> error + byte list" where
  "streamBuffer file pos sz =
     (let chunk = take sz (drop (nat pos) file)
      in if chunk = [] then Inl NeverSettles else Inr chunk)"

definition streamDecoder :: "byte list \<Rightarrow> int \<Rightarrow> nat \<Rightarrow> error + BinaryDecoder" where
  "streamDecoder file pos sz = ebind (streamBuffer file pos sz) (\<lambda>b. Inr (newDecoder b))"

fun streamPayloads ::
  "'r externals \<Rightarrow> PackageFileReadingOptions \<Rightarrow> byte list \<Rightarrow> IndexEntry list
     \<Rightarrow> error + (resource_key \<times> 'r Resource) list" where
  "streamPayloads ext options file [] = Inr []"
| "streamPayloads ext options file (indexEntry # rest) =
     ebind (streamBuffer file (uint (mnPosition indexEntry)) (unat (mnSize indexEntry)))
       (\<lambda>compressedBuffer.
     ebind (getResource ext indexEntry compressedBuffer options) (\<lambda>v.
     ebind (streamPayloads ext options file rest) (\<lambda>vs.
       Inr ((key indexEntry, v) # vs))))"

text \<open>
  \<open>streamDbpf\<close>. The header is read by \<open>readDbpfHeader(decoder)\<close>, with no options:
  inside it \<open>options?.recoveryMode\<close> is undefined, the falsy value. The result
  \<open>Inr\<close> is the list the promise resolves with; \<open>Inl e\<close> is a promise that is not
  resolved, because \<open>e\<close> was thrown inside its executor or because a read never
  produced a chunk.
\<close>

definition streamDbpf ::
  "'r externals \<Rightarrow> byte list \<Rightarrow> PackageFileReadingOptions
     \<Rightarrow> error + (resource_key \<times> 'r Resource) list" where
  "streamDbpf ext file options =
     ebind (streamDecoder file 0 96) (\<lambda>headerDecoder.
     ebind (readDbpfHeader headerDecoder False) (\<lambda>(header, d1).
       let flagsPos = indexRecordPosition header in
       ebind (streamDecoder file flagsPos 16) (\<lambda>flagsDecoder.
       ebind (readDbpfFlags flagsDecoder) (\<lambda>(flags, flagsDecoder').
         let indexPos = flagsPos + tell flagsDecoder';
             indexLength = unat (mnIndexRecordEntryCount header) * 32 in
         ebind (streamDecoder file indexPos indexLength) (\<lambda>indexDecoder.
         ebind (readDbpfIndex indexDecoder header flags (resourceFilter options))
           (\<lambda>(index, d4). streamPayloads ext options file index))))))"

text \<open>
  For comparing the two readers: \<open>W\<close> is a decoder over the window of \<open>sz\<close> bytes at
  \<open>p\<close> of the file and \<open>D\<close> a decoder over the whole file, at the same byte; and two
  results agree when they are the same exception, or the same value with decoders that
  are again at the same byte, the window's cursor being at most \<open>lim\<close>.
\<close>

definition windowOf :: "byte list \<Rightarrow> nat \<Rightarrow> nat \<Rightarrow> BinaryDecoder \<Rightarrow> BinaryDecoder \<Rightarrow> bool" where
  "windowOf file p sz W D \<longleftrightarrow>
     buffer D = file \<and> buffer W = take sz (drop p file)
     \<and> offset D = int p + offset W \<and> 0 \<le> offset W"

definition agree ::
  "byte list \<Rightarrow> nat \<Rightarrow> nat \<Rightarrow> int \<Rightarrow> error + ('a \<times> BinaryDecoder)
     \<Rightarrow> error + ('a \<times> BinaryDecoder) \<Rightarrow> bool" where
  "agree file p sz lim rw rd \<longleftrightarrow>
     (case rw of
        Inl e \<Rightarrow> rd = Inl e
      | Inr (x, W') \<Rightarrow>
          (case rd of Inl e \<Rightarrow> False
           | Inr (y, D') \<Rightarrow> x = y \<and> windowOf file p sz W' D' \<and> offset W' \<le> lim))"

section \<open>The string table writer (src/lib/resources/stringTable/serialization/writeStbl.ts)\<close>

text \<open>
  A JavaScript string, as the sequence of its code points (a surrogate pair is one code
  point, a lone surrogate is its own). \<open>utf8\<close> is Node's UTF-8 encoding of it:
  one to four bytes a code point, a lone surrogate as U+FFFD. \<open>byteLength\<close> is
  \<open>Buffer.byteLength\<close>, the number of bytes of that encoding.
\<close>

type_synonym jsstring = "nat list"

definition utf8_char :: "nat \<Rightarrow> byte list" where
  "utf8_char c =
     (if c < 0x80 then [word_of_nat c]
      else if c < 0x800 then [word_of_nat (0xC0 + c div 64), word_of_nat (0x80 + c mod 64)]
      else if c < 0x10000 then
        (if 0xD800 \<le> c \<and> c < 0xE000 then [0xEF, 0xBF, 0xBD]
         else [word_of_nat (0xE0 + c div 4096), word_of_nat (0x80 + c div 64 mod 64),
               word_of_nat (0x80 + c mod 64)])
      else [word_of_nat (0xF0 + c div 262144 mod 8), word_of_nat (0x80 + c div 4096 mod 64),
            word_of_nat (0x80 + c div 64 mod 64), word_of_nat (0x80 + c mod 64)])"

definition utf8 :: "jsstring \<Rightarrow> byte list" where
  "utf8 str = concat (map utf8_char str)"

definition byteLength :: "jsstring \<Rightarrow> nat" where
  "byteLength str = length (utf8 str)"

record KeyStringPair =
  ks_key :: nat
  ks_string :: jsstring

text \<open>
  \<open>BinaryEncoder\<close> of \<open>@s4tk/encoding\<close> (outside this repository), the writer side of
  the primitive codec: a cursor over a buffer of fixed length; a write replaces the
  bytes at the cursor and moves it. A numeric write throws when the value does not fit
  its width or the bytes do not fit the buffer, as Node's \<open>Buffer\<close> does; \<open>skip\<close>
  only moves the cursor.
\<close>

record BinaryEncoder =
  enc_buffer :: "byte list"
  enc_offset :: nat

definition newEncoder :: "byte list \<Rightarrow> BinaryEncoder" where
  "newEncoder b = \<lparr>enc_buffer = b, enc_offset = 0\<rparr>"

definition enc_skip :: "BinaryEncoder \<Rightarrow> nat \<Rightarrow> BinaryEncoder" where
  "enc_skip e n = e\<lparr>enc_offset := enc_offset e + n\<rparr>"

definition writeBytes :: "BinaryEncoder \<Rightarrow> byte list \<Rightarrow> error + BinaryEncoder" where
  "writeBytes e bs =
     (if enc_offset e + length bs \<le> length (enc_buffer e)
      then Inr \<lparr>enc_buffer = take (enc_offset e) (enc_buffer e) @ bs
                              @ drop (enc_offset e + length bs) (enc_buffer e),
                enc_offset = enc_offset e + length bs\<rparr>
      else Inl OutOfBounds)"

text \<open>The \<open>n\<close> little-endian bytes of a value, and the value of little-endian bytes.\<close>

fun le_bytes :: "nat \<Rightarrow> nat \<Rightarrow> byte list" where
  "le_bytes 0 v = []"
| "le_bytes (Suc n) v = word_of_nat (v mod 256) # le_bytes n (v div 256)"

fun le_nat :: "byte list \<Rightarrow> nat" where
  "le_nat [] = 0"
| "le_nat (b # bs) = unat b + 256 * le_nat bs"

definition writeUInt :: "nat \<Rightarrow> BinaryEncoder \<Rightarrow> nat \<Rightarrow> error + BinaryEncoder" where
  "writeUInt n e v =
     (if v < 256 ^ n then writeBytes e (le_bytes n v) else Inl ValueOutOfRange)"

definition enc_uint16 :: "BinaryEncoder \<Rightarrow> nat \<Rightarrow> error + BinaryEncoder" where
  "enc_uint16 = writeUInt 2"

definition enc_uint32 :: "BinaryEncoder \<Rightarrow> nat \<Rightarrow> error + BinaryEncoder" where
  "enc_uint32 = writeUInt 4"

definition enc_uint64 :: "BinaryEncoder \<Rightarrow> nat \<Rightarrow> error + BinaryEncoder" where
  "enc_uint64 = writeUInt 8"

definition enc_charsUtf8 :: "BinaryEncoder \<Rightarrow> jsstring \<Rightarrow> error + BinaryEncoder" where
  "enc_charsUtf8 e str = writeBytes e (utf8 str)"

text \<open>The literal "STBL".\<close>

definition STBL_magic :: jsstring where
  "STBL_magic = [0x53, 0x54, 0x42, 0x4C]"

text \<open>
  The first \<open>forEach\<close> of \<open>writeStbl\<close>, over the state
  \<open>(totalBytes, totalStringLength, stringLengths)\<close>.
\<close>

fun measureEntries ::
  "KeyStringPair list \<Rightarrow> nat \<times> nat \<times> nat list \<Rightarrow> nat \<times> nat \<times> nat list" where
  "measureEntries [] acc = acc"
| "measureEntries (entry # rest) (totalBytes, totalStringLength, stringLengths) =
     (let stringLength = byteLength (ks_string entry) in
      measureEntries rest
        (totalBytes + (stringLength + 7), totalStringLength + (stringLength + 1),
         stringLengths @ [stringLength]))"

text \<open>
  The second \<open>forEach\<close>, with its index. \<open>stringLengths[index]\<close> out of range is
  undefined, which the 16-bit write refuses.
\<close>

fun writeEntries ::
  "nat list \<Rightarrow> nat \<Rightarrow> KeyStringPair list \<Rightarrow> BinaryEncoder \<Rightarrow> error + BinaryEncoder" where
  "writeEntries stringLengths index [] encoder = Inr encoder"
| "writeEntries stringLengths index (entry # rest) encoder =
     ebind (enc_uint32 encoder (ks_key entry)) (\<lambda>e1.
     ebind (if index < length stringLengths
            then enc_uint16 (enc_skip e1 1) (stringLengths ! index)
            else Inl TypeError) (\<lambda>e2.
     ebind (enc_charsUtf8 e2 (ks_string entry)) (\<lambda>e3.
       writeEntries stringLengths (Suc index) rest e3)))"

definition writeStbl :: "KeyStringPair list \<Rightarrow> error + byte list" where
  "writeStbl entries =
     (case measureEntries entries (21, 0, []) of
        (totalBytes, totalStringLength, stringLengths) \<Rightarrow>
          ebind (enc_charsUtf8 (newEncoder (replicate totalBytes 0)) STBL_magic) (\<lambda>e1.
          ebind (enc_uint16 e1 5) (\<lambda>e2.
          ebind (enc_uint64 (enc_skip e2 1) (length entries)) (\<lambda>e3.
          ebind (enc_uint32 (enc_skip e3 2) totalStringLength) (\<lambda>e4.
          ebind (writeEntries stringLengths 0 entries e4) (\<lambda>e5.
            Inr (enc_buffer e5)))))))"

section \<open>The string table reader\<close>

text \<open>
  Modelled from the spec: the string table decoder (\<open>readStbl\<close>, behind
  \<open>StringTableResource.from\<close>) is not among the sources; its tests are. The layout is
  the specification's (section 4.4): the magic "STBL", a 16-bit version (the writer
  above writes 5), a compressed flag of one byte, a 64-bit entry count, two reserved
  bytes, the 32-bit total string length, then for each entry a 32-bit key, a flag byte,
  a 16-bit length and that many bytes of UTF-8; each entry gets the next id, from 0.
  The specification says a bad header is fatal "even under lenient options"; the tests
  in the sources say otherwise and the model follows them: a corrupt header throws
  "Not a string table." by default and does not throw with \<open>recoveryMode: true\<close>
  (\<open>ignoreErrors: true\<close> in the older tests), where "the table content" is returned,
  while corrupt content throws in both modes (src/unnamed/part_004, lines 319 to 341;
  src/test/models/resources/stringtable.test.js, lines 213 to 240). So in recovery mode
  the magic, the version and the compressed flag are skipped, not validated.
\<close>

record StblEntry =
  se_id :: nat
  se_key :: "32 word"
  se_value :: "byte list"

definition STBL_bytes :: "byte list" where
  "STBL_bytes = [0x53, 0x54, 0x42, 0x4C]"

definition readStblHeader :: "BinaryDecoder \<Rightarrow> bool \<Rightarrow> error + BinaryDecoder" where
  "readStblHeader d recovery =
     (if recovery then Inr (skip d 7)
      else ebind (charsUtf8 d 4) (\<lambda>(magic, d1).
        if magic \<noteq> STBL_bytes then Inl NotAStringTable
        else ebind (uint16 d1) (\<lambda>(version, d2).
          if version \<noteq> 5 then Inl (BadStblVersion (unat version))
          else Inr (skip d2 1))))"

fun readStblEntries ::
  "nat \<Rightarrow> nat \<Rightarrow> BinaryDecoder \<Rightarrow> error + (StblEntry list \<times> BinaryDecoder)" where
  "readStblEntries 0 nextId d = Inr ([], d)"
| "readStblEntries (Suc n) nextId d =
     ebind (uint32 d) (\<lambda>(k, d1).
     ebind (uint16 (skip d1 1)) (\<lambda>(len, d2).
     ebind (charsUtf8 d2 (unat len)) (\<lambda>(str, d3).
     ebind (readStblEntries n (Suc nextId) d3) (\<lambda>(rest, d4).
       Inr (\<lparr>se_id = nextId, se_key = k, se_value = str\<rparr> # rest, d4)))))"

definition readStbl :: "byte list \<Rightarrow> bool \<Rightarrow> error + StblEntry list" where
  "readStbl buf recovery =
     ebind (readStblHeader (newDecoder buf) recovery) (\<lambda>d1.
     ebind (uint64 d1) (\<lambda>(mnNumEntries, d2).
     ebind (uint32 (skip d2 2)) (\<lambda>(mnStringLength, d3).
     ebind (readStblEntries (unat mnNumEntries) 0 d3) (\<lambda>(entries, d4).
       Inr entries))))"

text \<open>
  For comparing two buffers that differ in their first \<open>k\<close> bytes only: two decoders at
  the same position past those bytes, and two results that are the same exception or
  the same value with such decoders.
\<close>

definition sameFrom :: "nat \<Rightarrow> BinaryDecoder \<Rightarrow> BinaryDecoder \<Rightarrow> bool" where
  "sameFrom k D1 D2 \<longleftrightarrow>
     offset D1 = offset D2 \<and> int k \<le> offset D1
     \<and> length (buffer D1) = length (buffer D2)
     \<and> drop k (buffer D1) = drop k (buffer D2)"

definition sameOutcome ::
  "nat \<Rightarrow> error + ('a \<times> BinaryDecoder) \<Rightarrow> error + ('a \<times> BinaryDecoder) \<Rightarrow> bool" where
  "sameOutcome k r1 r2 \<longleftrightarrow>
     (case r1 of
        Inl e \<Rightarrow> r2 = Inl e
      | Inr (x, D1') \<Rightarrow>
          (case r2 of Inl e \<Rightarrow> False | Inr (y, D2') \<Rightarrow> x = y \<and> sameFrom k D1' D2'))"

section \<open>The DATA reader (src/lib/resources/combined-tuning/serialization/read-data.ts)\<close>

definition RELOFFSET_NULL :: int where
  "RELOFFSET_NULL = - 0x80000000"

text \<open>
  The records of the file that have a name: the position of the name offset field and
  the relative offset read there (an \<open>int32\<close>). Positions and counts are JavaScript
  numbers: \<open>int\<close> where the source reads a signed field or adds offsets, \<open>nat\<close> for an
  unsigned field.
\<close>

record Named =
  startof_mnNameOffset :: int
  mnNameOffset :: int

record SchemaColumn = Named +
  col_mnNameHash :: nat
  col_mnDataType :: nat
  col_mnFlags :: nat
  col_mnOffset :: nat
  col_mnSchemaOffset :: int

record Schema = Named +
  sch_mnNameHash :: nat
  mnSchemaHash :: nat
  mnSchemaSize :: nat
  startof_mnColumnOffset :: int
  mnColumnOffset :: int
  mnNumColumns :: nat
  mColumn :: "SchemaColumn list"

record TableInfo = Named +
  ti_mnNameHash :: nat
  startof_mnSchemaOffset :: int
  ti_mnSchemaOffset :: int
  ti_mnDataType :: nat
  mnRowSize :: nat
  mnRowOffset :: int
  mnRowCount :: nat

text \<open>
  \<open>decoder.string()\<close> and \<open>decoder.savePos(fn)\<close> of the external decoder. \<open>string\<close>
  reads bytes from the cursor up to a null byte and moves past that terminator; each
  byte is a bounds-checked read, so it throws where the cursor is outside the buffer
  and where no null byte follows it (the specification's primitive codec lets the scan
  end at the end of the buffer; the decoder throws there). \<open>savePos\<close> runs \<open>fn\<close> and
  puts the cursor back where it was. A string is returned as its bytes (its UTF-8
  encoding).
\<close>

definition dec_string :: "BinaryDecoder \<Rightarrow> error + (byte list \<times> BinaryDecoder)" where
  "dec_string d =
     (if 0 \<le> offset d \<and> 0 \<in> set (drop (nat (offset d)) (buffer d))
      then (let str = takeWhile (\<lambda>b. b \<noteq> 0) (drop (nat (offset d)) (buffer d))
            in Inr (str, d\<lparr>offset := offset d + int (length str) + 1\<rparr>))
      else Inl OutOfBounds)"

definition savePos ::
  "(BinaryDecoder \<Rightarrow> error + ('a \<times> BinaryDecoder)) \<Rightarrow> BinaryDecoder
     \<Rightarrow> error + ('a \<times> BinaryDecoder)" where
  "savePos fn d = ebind (fn d) (\<lambda>(x, d'). Inr (x, seek d' (tell d)))"

text \<open>The literal "Unnamed", as bytes.\<close>

definition Unnamed :: "byte list" where
  "Unnamed = [0x55, 0x6E, 0x6E, 0x61, 0x6D, 0x65, 0x64]"

definition seekToAlignment :: "BinaryDecoder \<Rightarrow> int \<Rightarrow> BinaryDecoder" where
  "seekToAlignment d alignmentMask =
     (let nCurPos = tell d;
          nPadAmount = sint ((word_of_int (- nCurPos) :: 32 word) AND word_of_int alignmentMask)
      in seek d (nCurPos + nPadAmount))"

definition readString :: "BinaryDecoder \<Rightarrow> int \<Rightarrow> error + (byte list \<times> BinaryDecoder)" where
  "readString d pos = savePos (\<lambda>d'. dec_string (seek d' pos)) d"

definition readNamed :: "BinaryDecoder \<Rightarrow> 'a Named_scheme \<Rightarrow> error + (byte list \<times> BinaryDecoder)" where
  "readNamed d named =
     (if mnNameOffset named = RELOFFSET_NULL then Inr (Unnamed, d)
      else readString d (startof_mnNameOffset named + mnNameOffset named))"

text \<open>
  The same two functions with the calls they make on the decoder, in order: a seek is
  only an assignment to the cursor, which \<open>savePos\<close> undoes, so that a seek is
  performed or not shows in the calls alone. A call that throws is in the list.
\<close>

datatype decoder_call = Call_savePos | Call_seek int | Call_string

definition traced_seek :: "BinaryDecoder \<Rightarrow> int \<Rightarrow> decoder_call list \<times> BinaryDecoder" where
  "traced_seek d p = ([Call_seek p], seek d p)"

definition traced_string ::
  "BinaryDecoder \<Rightarrow> decoder_call list \<times> (error + (byte list \<times> BinaryDecoder))" where
  "traced_string d = ([Call_string], dec_string d)"

definition traced_savePos ::
  "(BinaryDecoder \<Rightarrow> decoder_call list \<times> (error + ('a \<times> BinaryDecoder))) \<Rightarrow> BinaryDecoder
     \<Rightarrow> decoder_call list \<times> (error + ('a \<times> BinaryDecoder))" where
  "traced_savePos fn d =
     (case fn d of (calls, r) \<Rightarrow>
        (Call_savePos # calls, ebind r (\<lambda>(x, d'). Inr (x, seek d' (tell d)))))"

definition readString_traced ::
  "BinaryDecoder \<Rightarrow> int \<Rightarrow> decoder_call list \<times> (error + (byte list \<times> BinaryDecoder))" where
  "readString_traced d pos =
     traced_savePos (\<lambda>d'.
       case traced_seek d' pos of (calls1, d1) \<Rightarrow>
       case traced_string d1 of (calls2, r) \<Rightarrow> (calls1 @ calls2, r)) d"

definition readNamed_traced ::
  "BinaryDecoder \<Rightarrow> 'a Named_scheme \<Rightarrow> decoder_call list \<times> (error + (byte list \<times> BinaryDecoder))" where
  "readNamed_traced d named =
     (if mnNameOffset named = RELOFFSET_NULL then ([], Inr (Unnamed, d))
      else readString_traced d (startof_mnNameOffset named + mnNameOffset named))"

text \<open>
  The enum \<open>DataType\<close> (enums/data-type, not among the sources) has the codes of the
  binary template, which are the codes of \<open>SimDataType\<close> above.
\<close>

definition dataTypeOfCode :: "nat \<Rightarrow> SimDataType option" where
  "dataTypeOfCode c =
     (let types = [Boolean, Character, Int8, UInt8, Int16, UInt16, Int32, UInt32, Int64,
                   UInt64, Float, String, HashedString, Object, Vector, Float2, Float3,
                   Float4, TableSetReference, ResourceKey, LocalizationKey, Variant,
                   Undefined]
      in if c < length types then Some (types ! c) else None)"

text \<open>
  The number of bytes each case of \<open>readDataType\<close> reads (through the \<open>struct\<close>
  readers for the composite types).
\<close>

fun readWidth :: "SimDataType \<Rightarrow> nat" where
  "readWidth Boolean = 1"
| "readWidth UInt8 = 1"
| "readWidth Character = 1"
| "readWidth Int8 = 1"
| "readWidth Int16 = 2"
| "readWidth UInt16 = 2"
| "readWidth Int32 = 4"
| "readWidth UInt32 = 4"
| "readWidth Int64 = 8"
| "readWidth UInt64 = 8"
| "readWidth Float = 4"
| "readWidth String = 4"
| "readWidth HashedString = 8"
| "readWidth Object = 4"
| "readWidth Vector = 8"
| "readWidth Float2 = 8"
| "readWidth Float3 = 12"
| "readWidth Float4 = 16"
| "readWidth TableSetReference = 8"
| "readWidth ResourceKey = 16"
| "readWidth LocalizationKey = 4"
| "readWidth Variant = 8"
| "readWidth Undefined = 0"

text \<open>
  A value read from the row data is kept as its type and the bytes it was read from
  (the fields of a composite value are consecutive reads). \<open>NoValue\<close> is the
  \<open>undefined\<close> the \<open>switch\<close> returns, without reading, for a code it has no case for.
\<close>

datatype cell_value = RawValue SimDataType "byte list" | NoValue

definition readDataType :: "BinaryDecoder \<Rightarrow> nat \<Rightarrow> error + (cell_value \<times> BinaryDecoder)" where
  "readDataType d typeCode =
     (case dataTypeOfCode typeCode of
        None \<Rightarrow> Inr (NoValue, d)
      | Some Undefined \<Rightarrow> Inl (UnknownTypeCode typeCode)
      | Some t \<Rightarrow> ebind (readBytes d (readWidth t)) (\<lambda>(bs, d'). Inr (RawValue t bs, d')))"

fun getSchemaIndex :: "Schema list \<Rightarrow> int \<Rightarrow> error + nat" where
  "getSchemaIndex [] pos = Inl (UnknownSchemaOffset pos)"
| "getSchemaIndex (s # rest) pos =
     (if pos = startof_mnNameOffset s then Inr 0
      else ebind (getSchemaIndex rest pos) (\<lambda>i. Inr (Suc i)))"

text \<open>A row: \<open>row[name] = value\<close> on an association list.\<close>

type_synonym Row = "(byte list \<times> cell_value) list"

fun rowSet :: "Row \<Rightarrow> byte list \<Rightarrow> cell_value \<Rightarrow> Row" where
  "rowSet [] name v = [(name, v)]"
| "rowSet ((n, w) # rest) name v =
     (if n = name then (n, v) # rest else (n, w) # rowSet rest name v)"

record TableData =
  mValue :: "cell_value list option"
  mRow :: "Row list option"

text \<open>
  \<open>structRow\<close>: the loop over \<open>k\<close>, with \<open>n\<close> columns still to read, on the state
  (row, alignment, decoder). \<open>getAlignment\<close> of common/data-type-helpers is not among
  the sources and is the parameter \<open>align\<close>, from a type code to an alignment. Its
  argument is \<open>mTable[i].mnDataType\<close>, the type of the table.
\<close>

fun structRow_loop ::
  "(nat \<Rightarrow> nat) \<Rightarrow> TableInfo \<Rightarrow> Schema \<Rightarrow> int \<Rightarrow> nat \<Rightarrow> nat
     \<Rightarrow> Row \<times> nat \<times> BinaryDecoder \<Rightarrow> error + (Row \<times> nat \<times> BinaryDecoder)" where
  "structRow_loop align table schema rowStart k 0 st = Inr st"
| "structRow_loop align table schema rowStart k (Suc n) (row, alignment, d) =
     (if k < length (mColumn schema) then
        (let column = mColumn schema ! k in
         ebind (readNamed d column) (\<lambda>(schemaColumnName, d1).
         ebind (readDataType (seek d1 (rowStart + int (col_mnOffset column)))
                  (col_mnDataType column)) (\<lambda>(v, d2).
           let columnAlignment = align (ti_mnDataType table) in
           structRow_loop align table schema rowStart (Suc k) n
             (rowSet row schemaColumnName v,
              (if columnAlignment > alignment then columnAlignment else alignment),
              d2))))
      else Inl TypeError)"

text \<open>
  \<open>structTableData\<close>: the loop over \<open>j\<close>, with \<open>n\<close> rows still to read, on the state
  (tableData, alignment, decoder); the caller starts it with \<open>alignment = 1\<close>.
\<close>

fun structTableData_loop ::
  "(nat \<Rightarrow> nat) \<Rightarrow> Schema list \<Rightarrow> TableInfo \<Rightarrow> nat
     \<Rightarrow> TableData \<times> nat \<times> BinaryDecoder \<Rightarrow> error + (TableData \<times> nat \<times> BinaryDecoder)" where
  "structTableData_loop align mSchema table 0 st = Inr st"
| "structTableData_loop align mSchema table (Suc n) (tableData, alignment, d) =
     ebind
       (if ti_mnSchemaOffset table = RELOFFSET_NULL then
          ebind (readDataType d (ti_mnDataType table)) (\<lambda>(v, d1).
            Inr (tableData\<lparr>mValue := map_option (\<lambda>vs. vs @ [v]) (mValue tableData)\<rparr>,
                 align (ti_mnDataType table), d1))
        else
          ebind (getSchemaIndex mSchema (startof_mnSchemaOffset table + ti_mnSchemaOffset table))
            (\<lambda>schemaIndex.
              let schema = mSchema ! schemaIndex;
                  rowStart = tell d in
              ebind (structRow_loop align table schema rowStart 0 (mnNumColumns schema)
                       ([], alignment, d)) (\<lambda>(row, alignment', d1).
                Inr (tableData\<lparr>mRow := map_option (\<lambda>rs. rs @ [row]) (mRow tableData)\<rparr>,
                     alignment', seek d1 (rowStart + int (mnSchemaSize schema))))))
       (\<lambda>(tableData', alignment', d2).
         structTableData_loop align mSchema table n
           (tableData', alignment', seekToAlignment d2 (int alignment' - 1)))"

definition structTableData ::
  "(nat \<Rightarrow> nat) \<Rightarrow> Schema list \<Rightarrow> TableInfo \<Rightarrow> TableData \<Rightarrow> BinaryDecoder
     \<Rightarrow> error + (TableData \<times> BinaryDecoder)" where
  "structTableData align mSchema table tableData d =
     ebind (structTableData_loop align mSchema table (mnRowCount table) (tableData, 1, d))
       (\<lambda>(tableData', alignment, d'). Inr (tableData', d'))"

text \<open>The body of the loop over the tables of \<open>readData\<close>, for one table.\<close>

definition readTableData ::
  "(nat \<Rightarrow> nat) \<Rightarrow> Schema list \<Rightarrow> TableInfo \<Rightarrow> BinaryDecoder
     \<Rightarrow> error + (TableData \<times> BinaryDecoder)" where
  "readTableData align mSchema table d =
     (let d1 = seekToAlignment (seekToAlignment d 15) (int (mnRowSize table) - 1);
          tableData = (if ti_mnSchemaOffset table = RELOFFSET_NULL
                       then \<lparr>mValue = Some [], mRow = None\<rparr>
                       else \<lparr>mValue = None, mRow = Some []\<rparr>)
      in ebind (structTableData align mSchema table tableData d1) (\<lambda>(tableData', d2).
           Inr (tableData', seekToAlignment d2 15)))"

text \<open>
  The alignment of a type code by \<open>SimDataTypeUtils.getAlignment\<close>, whose default case
  (a code outside the enum) returns 1.
\<close>

definition alignmentOfCode :: "nat \<Rightarrow> nat" where
  "alignmentOfCode c = (case dataTypeOfCode c of None \<Rightarrow> 1 | Some t \<Rightarrow> getAlignment t)"

section \<open>Writable models and raw resources (src/lib/base/writable-model.ts, src/unnamed/part_003)\<close>

text \<open>\<open>if (cache) this._bufferCache = wrapper\<close>\<close>

definition cacheBuffer :: "bool \<Rightarrow> CompressedBuffer \<Rightarrow> RawResource \<Rightarrow> RawResource" where
  "cacheBuffer cache wrapper this = (if cache then this\<lparr>bufferCache := Some wrapper\<rparr> else this)"

text \<open>
  \<open>WritableModel.getBuffer(cache, minify)\<close>, for a model whose abstract method
  \<open>_serialize\<close> is \<open>serialize\<close>. It returns the buffer and the model after the call.
\<close>

definition getBuffer ::
  "'r externals \<Rightarrow> (bool \<Rightarrow> error + byte list) \<Rightarrow> RawResource \<Rightarrow> bool \<Rightarrow> bool
     \<Rightarrow> error + (byte list \<times> RawResource)" where
  "getBuffer ext serialize this cache minify =
     (case bufferCache this of
        Some c \<Rightarrow>
          if compressionType c = Some Uncompressed then Inr (cb_buffer c, this)
          else ebind (decompressBuffer ext (cb_buffer c) (compressionType c))
                 (\<lambda>decompressedBuffer.
                   Inr (decompressedBuffer,
                        cacheBuffer cache
                          \<lparr>cb_buffer = decompressedBuffer, compressionType = Some Uncompressed,
                           sizeDecompressed = length decompressedBuffer\<rparr> this))
      | None \<Rightarrow>
          ebind (serialize minify)
            (\<lambda>decompressedBuffer.
              Inr (decompressedBuffer,
                   cacheBuffer cache
                     \<lparr>cb_buffer = decompressedBuffer, compressionType = Some Uncompressed,
                      sizeDecompressed = length decompressedBuffer\<rparr> this)))"

text \<open>
  \<open>WritableModel.getCompressedBuffer(targetCompressionType, cache, minify)\<close>; an
  absent target (\<open>None\<close>) is the default compression type of the model.
\<close>

definition getCompressedBuffer ::
  "'r externals \<Rightarrow> (bool \<Rightarrow> error + byte list) \<Rightarrow> RawResource \<Rightarrow> 16 word option \<Rightarrow> bool
     \<Rightarrow> bool \<Rightarrow> error + (CompressedBuffer \<times> RawResource)" where
  "getCompressedBuffer ext serialize this target cache minify =
     (let targetCompressionType =
            (case target of None \<Rightarrow> defaultCompressionType this | Some t \<Rightarrow> t);
          finish = (\<lambda>decompressedBuffer.
            ebind (compressBuffer ext decompressedBuffer targetCompressionType) (\<lambda>z.
              let wrapper = \<lparr>cb_buffer = z, compressionType = Some targetCompressionType,
                             sizeDecompressed = length decompressedBuffer\<rparr>
              in Inr (wrapper, cacheBuffer cache wrapper this)))
      in case bufferCache this of
           Some c \<Rightarrow>
             if compressionType c = Some targetCompressionType then Inr (c, this)
             else ebind (decompressBuffer ext (cb_buffer c) (compressionType c)) finish
         | None \<Rightarrow> ebind (serialize minify) finish)"

text \<open>
  The setter of \<open>defaultCompressionType\<close>, for a model whose
  \<open>_clearBufferCacheIfSupported\<close> is \<open>clear\<close>.
\<close>

definition setDefaultCompressionType ::
  "(RawResource \<Rightarrow> RawResource) \<Rightarrow> RawResource \<Rightarrow> 16 word option \<Rightarrow> RawResource" where
  "setDefaultCompressionType clear this v =
     (let this' = (case bufferCache this of
                     Some c \<Rightarrow> if compressionType c \<noteq> v then clear this else this
                   | None \<Rightarrow> this)
      in this'\<lparr>defaultCompressionType := (case v of None \<Rightarrow> Uncompressed | Some t \<Rightarrow> t)\<rparr>)"

text \<open>
  \<open>WritableModel._clearBufferCacheIfSupported\<close> deletes the cache. \<open>RawResource\<close>
  overrides it, and \<open>onChange\<close>, with methods "intentionally blank", and \<open>_serialize\<close>
  with a method that throws.
\<close>

definition wm_clearBufferCacheIfSupported :: "RawResource \<Rightarrow> RawResource" where
  "wm_clearBufferCacheIfSupported this = this\<lparr>bufferCache := None\<rparr>"

definition raw_clearBufferCacheIfSupported :: "RawResource \<Rightarrow> RawResource" where
  "raw_clearBufferCacheIfSupported this = this"

definition raw_onChange :: "RawResource \<Rightarrow> RawResource" where
  "raw_onChange this = this"

definition raw_serialize :: "bool \<Rightarrow> error + byte list" where
  "raw_serialize minify = Inl CannotSerializeRaw"

text \<open>\<open>RawResource.from(buffer, options)\<close>\<close>

definition rawFrom :: "byte list \<Rightarrow> raw_reason option \<Rightarrow> 16 word option \<Rightarrow> RawResource" where
  "rawFrom buf rsn dct =
     newRawResource
       (Some \<lparr>cb_buffer = buf, compressionType = Some Uncompressed,
              sizeDecompressed = length buf\<rparr>) rsn dct"

text \<open>
  The calls a client can make on a raw resource that reach the buffer cache, and the
  resource after a call (a call that throws leaves it as it was) and after a sequence
  of calls. The getter \<open>buffer\<close> is \<open>getBuffer()\<close>.
\<close>

datatype raw_call =
    GetBuffer bool bool
  | GetCompressedBuffer "16 word option" bool bool
  | SetDefaultCompressionType "16 word option"
  | OnChange
  | BufferGetter

fun raw_step :: "'r externals \<Rightarrow> RawResource \<Rightarrow> raw_call \<Rightarrow> RawResource" where
  "raw_step ext this (GetBuffer cache minify) =
     (case getBuffer ext raw_serialize this cache minify of
        Inl e \<Rightarrow> this | Inr (b, this') \<Rightarrow> this')"
| "raw_step ext this (GetCompressedBuffer target cache minify) =
     (case getCompressedBuffer ext raw_serialize this target cache minify of
        Inl e \<Rightarrow> this | Inr (w, this') \<Rightarrow> this')"
| "raw_step ext this (SetDefaultCompressionType v) =
     setDefaultCompressionType raw_clearBufferCacheIfSupported this v"
| "raw_step ext this OnChange = raw_onChange this"
| "raw_step ext this BufferGetter =
     (case getBuffer ext raw_serialize this False False of
        Inl e \<Rightarrow> this | Inr (b, this') \<Rightarrow> this')"

fun raw_run :: "'r externals \<Rightarrow> RawResource \<Rightarrow> raw_call list \<Rightarrow> RawResource" where
  "raw_run ext this [] = this"
| "raw_run ext this (c # cs) = raw_run ext (raw_step ext this c) cs"

text \<open>
  What \<open>getBuffer\<close> makes of a wrapper: its bytes when it is uncompressed, their
  decompression otherwise.
\<close>

definition uncompressedForm :: "'r externals \<Rightarrow> CompressedBuffer \<Rightarrow> error + byte list" where
  "uncompressedForm ext w =
     (if compressionType w = Some Uncompressed then Inr (cb_buffer w)
      else decompressBuffer ext (cb_buffer w) (compressionType w))"

text \<open>The invariant of the calls: there is a cache, and it has the uncompressed form \<open>v\<close>.\<close>

definition cacheDecodesAs :: "'r externals \<Rightarrow> error + byte list \<Rightarrow> RawResource \<Rightarrow> bool" where
  "cacheDecodesAs ext v this \<longleftrightarrow>
     (case bufferCache this of None \<Rightarrow> False | Some c \<Rightarrow> uncompressedForm ext c = v)"

text \<open>
  The contract of the external compression that the results below assume: what
  \<open>compressBuffer\<close> returns decompresses to its input, and the uncompressed type
  leaves the bytes as they are, both ways.
\<close>

definition codecRoundTrips :: "'r externals \<Rightarrow> bool" where
  "codecRoundTrips ext \<longleftrightarrow>
     (\<forall>b t z. compressBuffer ext b t = Inr z \<longrightarrow>
        (if t = Uncompressed then z = b else decompressBuffer ext z (Some t) = Inr b))
     \<and> (\<forall>b z. decompressBuffer ext b (Some Uncompressed) = Inr z \<longrightarrow> z = b)"

section \<open>SimData cells (src/unnamed/part_000)\<close>

text \<open>
  Cells are objects that refer to each other (a cell to its owner, a multi-value cell
  to its values), so they live in a store from addresses to objects. An object keeps
  the fields the operations of \<open>MultiValueCell\<close> read and write: the data type, the
  owner (\<open>None\<close>: undefined) and the values array, in which \<open>None\<close> is a hole of the
  JavaScript array. \<open>uncache()\<close> walks up the owners and changes no cell.
\<close>

type_synonym addr = nat

record cell_obj =
  dataType :: SimDataType
  owner :: "addr option"
  cell_values :: "addr option list"

type_synonym cell_store = "addr \<Rightarrow> cell_obj"

text \<open>\<open>addValues(...values)\<close>: for each cell, set its owner and push it.\<close>

fun addValues :: "cell_store \<Rightarrow> addr \<Rightarrow> addr list \<Rightarrow> cell_store" where
  "addValues h this [] = h"
| "addValues h this (cell # rest) =
     (let h1 = h(cell := (h cell)\<lparr>owner := Some this\<rparr>);
          h2 = h1(this := (h1 this)\<lparr>cell_values := cell_values (h1 this) @ [Some cell]\<rparr>)
      in addValues h2 this rest)"

text \<open>
  \<open>array[index] = value\<close>: within the array the element is replaced; at or past its
  end the array is extended, with holes before the new element.
\<close>

definition js_array_set :: "'a option list \<Rightarrow> nat \<Rightarrow> 'a \<Rightarrow> 'a option list" where
  "js_array_set xs i v =
     (if i < length xs then xs[i := Some v]
      else xs @ replicate (i - length xs) None @ [Some v])"

text \<open>\<open>setValue(index, value)\<close>: \<open>this.values[index] = value; this.uncache()\<close>\<close>

definition setValue :: "cell_store \<Rightarrow> addr \<Rightarrow> nat \<Rightarrow> addr \<Rightarrow> cell_store" where
  "setValue h this index v =
     h(this := (h this)\<lparr>cell_values := js_array_set (cell_values (h this)) index v\<rparr>)"

text \<open>
  \<open>MultiValueCell.validate({ignoreCache})\<close>: \<open>forEach\<close> visits the elements that are
  not holes; a value whose owner is not this cell throws, unless the cache is ignored;
  then the value validates itself, which is the parameter \<open>validateValue\<close> (each class
  of cell has its own).
\<close>

fun validate_loop ::
  "(cell_store \<Rightarrow> addr \<Rightarrow> error + unit) \<Rightarrow> cell_store \<Rightarrow> addr \<Rightarrow> bool \<Rightarrow> addr option list
     \<Rightarrow> error + unit" where
  "validate_loop validateValue h this ignoreCache [] = Inr ()"
| "validate_loop validateValue h this ignoreCache (None # rest) =
     validate_loop validateValue h this ignoreCache rest"
| "validate_loop validateValue h this ignoreCache (Some v # rest) =
     (if \<not> ignoreCache \<and> owner (h v) \<noteq> Some this then Inl CacheProblem
      else ebind (validateValue h v) (\<lambda>u.
             validate_loop validateValue h this ignoreCache rest))"

definition validate ::
  "(cell_store \<Rightarrow> addr \<Rightarrow> error + unit) \<Rightarrow> cell_store \<Rightarrow> addr \<Rightarrow> bool \<Rightarrow> error + unit" where
  "validate validateValue h this ignoreCache =
     validate_loop validateValue h this ignoreCache (cell_values (h this))"

text \<open>The invariant: every cell in the values array of \<open>this\<close> has \<open>this\<close> as its owner.\<close>

definition ownsValues :: "cell_store \<Rightarrow> addr \<Rightarrow> bool" where
  "ownsValues h this =
     list_all (\<lambda>x. case x of None \<Rightarrow> True | Some v \<Rightarrow> owner (h v) = Some this)
       (cell_values (h this))"

section \<open>Concrete inputs\<close>

text \<open>
  A package of 166 bytes: the header (version 2.1, two index records, the index at 104),
  two payloads of four bytes at 96 and 100, the flags (constant type 0x220557DA), an
  uncompressed record (group 0, instance 1, position 96, size 4) and a compressed one
  (group 0, instance 2, position 100, size 4 with the top bit set, compression type
  0x5A42).
\<close>

definition demo_header :: "byte list" where
  "demo_header =
     [0x44, 0x42, 0x50, 0x46, 2, 0, 0, 0, 1, 0, 0, 0] @ replicate 24 0
     @ [2, 0, 0, 0, 104, 0, 0, 0] @ replicate 16 0 @ [3, 0, 0, 0]
     @ replicate 8 0 @ replicate 24 0"

definition demo_index :: "byte list" where
  "demo_index =
     [1, 0, 0, 0, 0xDA, 0x57, 0x05, 0x22]
     @ [0, 0, 0, 0, 0, 0, 0, 0, 1, 0, 0, 0, 96, 0, 0, 0, 4, 0, 0, 0, 4, 0, 0, 0, 1, 0]
     @ [0, 0, 0, 0, 0, 0, 0, 0, 2, 0, 0, 0, 100, 0, 0, 0, 4, 0, 0, 0x80, 4, 0, 0, 0,
        0x42, 0x5A, 1, 0]"

definition demo_dbpf :: "byte list" where
  "demo_dbpf = demo_header @ [1, 2, 3, 4, 5, 6, 7, 8] @ demo_index"

text \<open>
  The same package with its magic overwritten by zeros and no index records: 96 header
  bytes (the index at 96) and the four flag bytes.
\<close>

definition demo_bad_magic :: "byte list" where
  "demo_bad_magic = replicate 40 0 @ [96] @ replicate 59 0"

text \<open>
  External functions for the concrete inputs: a decompression that returns its input
  and a registry with no registered type.
\<close>

definition demo_externals :: "unit externals" where
  "demo_externals =
     \<lparr>decompressBuffer = (\<lambda>b t. Inr b),
      compressBuffer = (\<lambda>b t. Inr b),
      generateResourceFromBuffer = (\<lambda>t b ro. Inr None)\<rparr>"

definition no_options :: PackageFileReadingOptions where
  "no_options =
     \<lparr>recoveryMode = False, resourceFilter = None, decompressBuffers = False,
      loadRaw = False, saveBuffer = False\<rparr>"

definition demo_flags :: DbpfFlags where
  "demo_flags =
     \<lparr>constantTypeId = Some 0x220557DA, constantGroupId = None,
      constantInstanceIdEx = None\<rparr>"

text \<open>The second index record of the concrete package.\<close>

definition demo_entry2 :: IndexEntry where
  "demo_entry2 =
     \<lparr>key = \<lparr>rk_type = 0x220557DA, rk_group = 0, rk_instance = 2\<rparr>,
      mnPosition = 100, mnSize = 4, mnSizeDecompressed = 4,
      mnCompressionType = Some 0x5A42\<rparr>"

text \<open>
  A string table of one entry (key 0x7E08629A, "Hi") whose magic is overwritten by
  zeros, and the same table with its magic.
\<close>

definition demo_stbl_bad_magic :: "byte list" where
  "demo_stbl_bad_magic =
     [0, 0, 0, 0, 5, 0, 0, 1, 0, 0, 0, 0, 0, 0, 0, 0, 0, 3, 0, 0, 0,
      0x9A, 0x62, 0x08, 0x7E, 0, 2, 0, 0x48, 0x69]"

definition demo_stbl_bytes :: "byte list" where
  "demo_stbl_bytes = STBL_bytes @ drop 4 demo_stbl_bad_magic"

text \<open>
  Two string table entries: "Hi" (two bytes in UTF-8) and the one-character string
  U+00E9 (two bytes in UTF-8).
\<close>

definition demo_stbl :: "KeyStringPair list" where
  "demo_stbl =
     [\<lparr>ks_key = 0x7E08629A, ks_string = [0x48, 0x69]\<rparr>,
      \<lparr>ks_key = 0xF098F4B5, ks_string = [0xE9]\<rparr>]"

text \<open>
  Row data of a table bound to a schema of two columns, "a" (Int64, at offset 0 of the
  row) and "b" (UInt32, at offset 8), with a schema size of 12: two rows, at 16 and at
  28, then the two names. The type of the table is Object (code 13).
\<close>

definition demo_data :: "byte list" where
  "demo_data =
     replicate 16 0 @ [1, 0, 0, 0, 0, 0, 0, 0, 2, 0, 0, 0]
     @ [3, 0, 0, 0, 0, 0, 0, 0, 4, 0, 0, 0] @ [0x61, 0, 0x62, 0]"

definition demo_schema :: Schema where
  "demo_schema =
     \<lparr>startof_mnNameOffset = 4, mnNameOffset = RELOFFSET_NULL,
      sch_mnNameHash = 0, mnSchemaHash = 0, mnSchemaSize = 12,
      startof_mnColumnOffset = 0, mnColumnOffset = 0, mnNumColumns = 2,
      mColumn =
        [\<lparr>startof_mnNameOffset = 0, mnNameOffset = 40, col_mnNameHash = 0,
          col_mnDataType = 8, col_mnFlags = 0, col_mnOffset = 0,
          col_mnSchemaOffset = RELOFFSET_NULL\<rparr>,
         \<lparr>startof_mnNameOffset = 0, mnNameOffset = 42, col_mnNameHash = 0,
          col_mnDataType = 7, col_mnFlags = 0, col_mnOffset = 8,
          col_mnSchemaOffset = RELOFFSET_NULL\<rparr>]\<rparr>"

definition demo_table :: TableInfo where
  "demo_table =
     \<lparr>startof_mnNameOffset = 0, mnNameOffset = RELOFFSET_NULL,
      ti_mnNameHash = 0, startof_mnSchemaOffset = 0, ti_mnSchemaOffset = 4,
      ti_mnDataType = 13, mnRowSize = 12, mnRowOffset = 0, mnRowCount = 2\<rparr>"

text \<open>
  A stand-in for the external compression: compressing puts one byte in front of the
  bytes, decompressing removes it (and fails on no bytes); the uncompressed type leaves
  the bytes as they are.
\<close>

definition demo_codec :: "unit externals" where
  "demo_codec =
     \<lparr>decompressBuffer =
        (\<lambda>b t. if t = Some Uncompressed then Inr b
               else case b of [] \<Rightarrow> Inl DecompressionFailure | x # r \<Rightarrow> Inr r),
      compressBuffer = (\<lambda>b t. if t = Uncompressed then Inr b else Inr (0 # b)),
      generateResourceFromBuffer = (\<lambda>t b ro. Inr None)\<rparr>"

text \<open>A wrapper of compressed bytes, and calls on a raw resource.\<close>

definition demo_wrapper :: CompressedBuffer where
  "demo_wrapper = \<lparr>cb_buffer = [9, 1, 2], compressionType = Some ZLIB, sizeDecompressed = 2\<rparr>"

definition demo_calls :: "raw_call list" where
  "demo_calls =
     [GetCompressedBuffer (Some Uncompressed) True False, OnChange,
      SetDefaultCompressionType None, GetCompressedBuffer None True False,
      GetBuffer True False, BufferGetter]"

text \<open>
  A store with a vector cell at 0 that holds the cell at 1, and a number cell at 2 that
  has no owner.
\<close>

definition demo_store :: cell_store where
  "demo_store =
     (\<lambda>a. if a = 0 then \<lparr>dataType = Vector, owner = None, cell_values = [Some 1]\<rparr>
          else if a = 1 then \<lparr>dataType = Int32, owner = Some 0, cell_values = []\<rparr>
          else \<lparr>dataType = Int32, owner = None, cell_values = []\<rparr>)"

section \<open>Results about the data types\<close>

text \<open>
  C3, as stated, fails: the table gives Float4 the alignment 8, and \<open>getAlignment\<close>
  returns 4 for Float4 (it is in the group of the 4-byte aligned types, with Float2 and
  Float3).
\<close>

theorem C3_float4_alignment_counterexample:
  "getAlignment Float4 = 4 \<and> spec_table_alignment Float4 = Some 8"
  by simp

text \<open>
  C3, amended: for every SimData data type, \<open>getBytes\<close> returns the width of the
  specification's table and \<open>getAlignment\<close> its alignment, except that Float4 has
  alignment 4 (among the 16-byte types only ResourceKey has alignment 8); for
  Undefined, which has no row, \<open>getBytes\<close> throws and \<open>getAlignment\<close> returns 1.
\<close>

theorem C3_bytes_and_alignment_table:
  "getBytes t = (case spec_table_bytes t of None \<Rightarrow> Inl DataTypeNotRecognized | Some n \<Rightarrow> Inr n)
   \<and> getAlignment t =
       (if t = Float4 then 4
        else case spec_table_alignment t of None \<Rightarrow> 1 | Some a \<Rightarrow> a)"
  by (cases t) simp_all

section \<open>Properties of the decoder\<close>

lemma ebind_Inr_iff: "ebind m f = Inr y \<longleftrightarrow> (\<exists>x. m = Inr x \<and> f x = Inr y)"
  by (cases m) (simp_all add: ebind_def)

lemma ebind_Inr [simp]: "ebind (Inr x) f = f x"
  by (simp add: ebind_def)

lemma ebind_Inl [simp]: "ebind (Inl e) f = Inl e"
  by (simp add: ebind_def)

lemma skip_skip: "skip (skip d a) b = skip d (a + b)"
  by (simp add: skip_def)

lemma offset_skip [simp]: "offset (skip d n) = offset d + n"
  and buffer_skip [simp]: "buffer (skip d n) = buffer d"
  by (simp_all add: skip_def)

lemma readWord_eq:
  "readWord n d =
     (if 0 \<le> offset d \<and> nat (offset d) + n \<le> length (buffer d)
      then Inr (le_word (take n (drop (nat (offset d)) (buffer d))), skip d (int n))
      else Inl OutOfBounds)"
  by (simp add: readWord_def readBytes_def skip_def)

lemmas uint_eqs = uint8_def uint16_def uint32_def uint64_def readWord_eq

text \<open>The top bit of a 32-bit word, as the source tests it (\<open>w >>> 31 === 1\<close>).\<close>

lemma top_bit_32: "(drop_bit 31 (w :: 32 word) = 1) \<longleftrightarrow> bit w 31"
proof
  assume "drop_bit 31 w = 1"
  then have "bit (drop_bit 31 w) 0" by simp
  then show "bit w 31" by (simp add: bit_drop_bit_eq)
next
  assume h: "bit w 31"
  show "drop_bit 31 w = 1"
  proof (rule bit_eqI)
    fix n
    show "bit (drop_bit 31 w) n \<longleftrightarrow> bit (1 :: 32 word) n"
    proof (cases "n = 0")
      case True
      then show ?thesis using h by (simp add: bit_drop_bit_eq)
    next
      case False
      then have "\<not> bit w (31 + n)" by (auto dest: bit_imp_le_length)
      then show ?thesis using False by (simp add: bit_drop_bit_eq bit_1_iff add.commute)
    qed
  qed
qed

lemma low31_mask: "(w :: 32 word) AND 0x7FFFFFFF = take_bit 31 w"
  by (simp add: take_bit_eq_mask mask_eq_exp_minus_1)

lemma low31_bound: "unat (take_bit 31 (w :: 32 word)) \<le> 0x7FFFFFFF"
proof -
  have "take_bit 31 (unat w) < 2 ^ 31"
    by (rule take_bit_nat_less_exp)
  then show ?thesis by (simp add: unsigned_take_bit_eq)
qed

section \<open>The index of a package\<close>

text \<open>
  Where a record is read, the skip branch succeeds too, returns nothing and leaves the
  cursor where the read branch leaves it: 14 bytes after the key, or 16 with the
  compression type.
\<close>

lemma skipEntryBody_cursor:
  assumes "readEntryBody k d4 = Inr (x, d')"
  shows "skipEntryBody d4 = Inr (None, d')"
  using assms
  unfolding readEntryBody_def skipEntryBody_def
  by (auto simp: uint_eqs Let_def skip_skip split: if_splits)

lemma readIndexEntry_accept:
  "(\<forall>t g i. f t g i) \<Longrightarrow> readIndexEntry flags (Some f) d = readIndexEntry flags None d"
  by (simp add: readIndexEntry_def rejected_def)

lemma readIndexEntry_cursor:
  assumes "readIndexEntry flags None d = Inr (x, d')"
  shows "\<exists>y. readIndexEntry flags (Some f) d = Inr (y, d') \<and> (y = None \<or> y = x)"
proof -
  from assms obtain k d4 where k: "readEntryKey flags d = Inr (k, d4)"
    and b: "readEntryBody k d4 = Inr (x, d')"
    unfolding readIndexEntry_def by (auto simp: ebind_Inr_iff rejected_def)
  show ?thesis
  proof (cases "rejected (Some f) k")
    case True
    then show ?thesis using k skipEntryBody_cursor [OF b] by (simp add: readIndexEntry_def)
  next
    case False
    then show ?thesis using k b by (simp add: readIndexEntry_def)
  qed
qed

lemma readIndexEntry_reject:
  assumes "\<forall>t g i. \<not> f t g i" "readIndexEntry flags None d = Inr (x, d')"
  shows "readIndexEntry flags (Some f) d = Inr (None, d')"
proof -
  from assms(2) obtain k d4 where k: "readEntryKey flags d = Inr (k, d4)"
    and b: "readEntryBody k d4 = Inr (x, d')"
    unfolding readIndexEntry_def by (auto simp: ebind_Inr_iff rejected_def)
  have "rejected (Some f) k" using assms(1) by (simp add: rejected_def)
  then show ?thesis using k skipEntryBody_cursor [OF b] by (simp add: readIndexEntry_def)
qed

lemma makeList_reject:
  assumes "\<forall>t g i. \<not> f t g i"
  shows "makeList n (readIndexEntry flags None) d = Inr (xs, d')
     \<Longrightarrow> makeList n (readIndexEntry flags (Some f)) d = Inr ([], d')"
proof (induction n arbitrary: d xs)
  case 0
  then show ?case by simp
next
  case (Suc n)
  from Suc.prems obtain x d1 ys where
    h: "readIndexEntry flags None d = Inr (x, d1)"
    and t: "makeList n (readIndexEntry flags None) d1 = Inr (ys, d')"
    by (auto simp: ebind_Inr_iff)
  show ?case
    using readIndexEntry_reject [OF assms h] Suc.IH [OF t] by simp
qed

text \<open>\<open>getResource\<close> and the payload loop do not read the filter.\<close>

lemma getResource_filter [simp]:
  "getResource ext e b (options\<lparr>resourceFilter := x\<rparr>) = getResource ext e b options"
  by (simp add: getResource_def cong: sum.case_cong option.case_cong if_cong)

lemma readPayloads_filter [simp]:
  "readPayloads ext (options\<lparr>resourceFilter := x\<rparr>) d es = readPayloads ext options d es"
  by (induction es arbitrary: d) simp_all

lemma readDbpf_accept_all:
  assumes "\<forall>t g i. f t g i"
  shows "readDbpf ext buf (options\<lparr>resourceFilter := Some f\<rparr>)
       = readDbpf ext buf (options\<lparr>resourceFilter := None\<rparr>)"
proof -
  have "readIndexEntry flags (Some f) = readIndexEntry flags None" for flags
    using readIndexEntry_accept [OF assms] by blast
  then show ?thesis by (simp add: readDbpf_def readDbpfIndex_def)
qed

lemma readDbpf_reject_all:
  assumes "\<forall>t g i. \<not> f t g i"
    and "readDbpf ext buf (options\<lparr>resourceFilter := None\<rparr>) = Inr res"
  shows "readDbpf ext buf (options\<lparr>resourceFilter := Some f\<rparr>) = Inr []"
proof -
  from assms(2) obtain header d1 flags d3 index d4 where
    h: "readDbpfHeader (newDecoder buf) (recoveryMode options) = Inr (header, d1)"
    and fl: "readDbpfFlags (seek d1 (indexRecordPosition header)) = Inr (flags, d3)"
    and ix: "readDbpfIndex d3 header flags None = Inr (index, d4)"
    unfolding readDbpf_def by (auto simp: ebind_Inr_iff)
  have "readDbpfIndex d3 header flags (Some f) = Inr ([], d4)"
    using makeList_reject [OF assms(1)] ix by (simp add: readDbpfIndex_def)
  then show ?thesis using h fl by (simp add: readDbpf_def)
qed

text \<open>The two records of the concrete package, as the index reader returns them.\<close>

lemma demo_second_entry:
  "readIndexEntry demo_flags None \<lparr>buffer = demo_dbpf, offset = 138\<rparr>
     = Inr (Some demo_entry2, \<lparr>buffer = demo_dbpf, offset = 166\<rparr>)"
  by code_simp

lemma demo_decoded:
  "readDbpf demo_externals demo_dbpf (no_options\<lparr>resourceFilter := None\<rparr>)
     = Inr [(\<lparr>rk_type = 0x220557DA, rk_group = 0, rk_instance = 1\<rparr>,
             Raw \<lparr>bufferCache = Some \<lparr>cb_buffer = [1, 2, 3, 4], compressionType = None,
                                       sizeDecompressed = 4\<rparr>,
                  defaultCompressionType = 0x5A42,
                  reason = Some (UnregisteredResourceType 0x220557DA)\<rparr>),
            (\<lparr>rk_type = 0x220557DA, rk_group = 0, rk_instance = 2\<rparr>,
             Raw \<lparr>bufferCache = Some \<lparr>cb_buffer = [5, 6, 7, 8],
                                       compressionType = Some 0x5A42,
                                       sizeDecompressed = 4\<rparr>,
                  defaultCompressionType = 0x5A42,
                  reason = Some (UnregisteredResourceType 0x220557DA)\<rparr>)]"
  by code_simp

text \<open>
  C4: for a buffer that decodes without a filter, decoding with a filter that rejects
  every key returns the empty list and does not throw; decoding with a filter that
  accepts every key returns what decoding with no filter returns (whatever the buffer);
  and wherever an index record is read without a filter, reading it under any filter
  succeeds and leaves the decoder exactly where the unfiltered read leaves it, the
  record being either dropped or the same.
\<close>

theorem C4_filter_correctness:
  "((\<forall>t g i. f t g i) \<longrightarrow>
      readDbpf ext buf (options\<lparr>resourceFilter := Some f\<rparr>)
        = readDbpf ext buf (options\<lparr>resourceFilter := None\<rparr>))
   \<and> ((\<forall>t g i. \<not> f t g i)
        \<and> readDbpf ext buf (options\<lparr>resourceFilter := None\<rparr>) = Inr res \<longrightarrow>
      readDbpf ext buf (options\<lparr>resourceFilter := Some f\<rparr>) = Inr [])
   \<and> (readIndexEntry flags None d = Inr (x, d') \<longrightarrow>
      (\<exists>y. readIndexEntry flags (Some f) d = Inr (y, d') \<and> (y = None \<or> y = x)))"
  using readDbpf_accept_all [of f ext buf options]
    readDbpf_reject_all [of f ext buf options res]
    readIndexEntry_cursor [of flags d x d' f]
  by blast

theorem C4_filter_correctness_witness:
  "readDbpf demo_externals demo_dbpf (no_options\<lparr>resourceFilter := Some (\<lambda>t g i. True)\<rparr>)
     = readDbpf demo_externals demo_dbpf (no_options\<lparr>resourceFilter := None\<rparr>)
   \<and> readDbpf demo_externals demo_dbpf (no_options\<lparr>resourceFilter := Some (\<lambda>t g i. False)\<rparr>)
     = Inr []
   \<and> (\<exists>y. readIndexEntry demo_flags (Some (\<lambda>t g i. False))
              \<lparr>buffer = demo_dbpf, offset = 138\<rparr>
            = Inr (y, \<lparr>buffer = demo_dbpf, offset = 166\<rparr>))"
proof -
  have a: "\<forall>t g i. (\<lambda>(t :: 32 word) (g :: 32 word) (i :: 64 word). True) t g i"
    by simp
  have r: "\<forall>t g i. \<not> (\<lambda>(t :: 32 word) (g :: 32 word) (i :: 64 word). False) t g i"
    by simp
  show ?thesis
    using C4_filter_correctness [of "\<lambda>t g i. True" demo_externals demo_dbpf no_options] a
      C4_filter_correctness [of "\<lambda>t g i. False" demo_externals demo_dbpf no_options _
        demo_flags "\<lparr>buffer = demo_dbpf, offset = 138\<rparr>" _ "\<lparr>buffer = demo_dbpf, offset = 166\<rparr>"]
      r demo_decoded demo_second_entry
    by blast
qed

text \<open>
  C5: for every index entry the reader returns, the 32-bit size word \<open>w\<close> is the one
  read four bytes after the key; the entry's size is \<open>w\<close> with its top bit masked off
  (its low 31 bits), so it is at most 0x7FFFFFFF whatever the top bit is; the 16-bit
  compression type is read (at byte 12 after the key) exactly when the top bit of \<open>w\<close>
  is set, and is undefined otherwise; the record ends 16 bytes after the key when the
  bit is set and 14 bytes after it otherwise.
\<close>

theorem C5_index_bit_packing:
  assumes "readIndexEntry flags resFilter d = Inr (Some e, d')"
  shows "\<exists>d4 w. readEntryKey flags d = Inr (key e, d4)
           \<and> uint32 (skip d4 4) = Inr (w, skip d4 8)
           \<and> mnSize e = w AND 0x7FFFFFFF
           \<and> mnSize e = take_bit 31 w
           \<and> unat (mnSize e) \<le> 0x7FFFFFFF
           \<and> (if bit w 31
                then \<exists>c. uint16 (skip d4 12) = Inr (c, skip d4 14)
                          \<and> mnCompressionType e = Some c
                else mnCompressionType e = None)
           \<and> d' = skip d4 (if bit w 31 then 16 else 14)"
proof -
  from assms obtain k d4 where k: "readEntryKey flags d = Inr (k, d4)"
    and b: "readEntryBody k d4 = Inr (Some e, d')"
    unfolding readIndexEntry_def
    by (auto simp: ebind_Inr_iff skipEntryBody_def Let_def split: if_splits)
  from b have "key e = k"
    unfolding readEntryBody_def
    by (auto simp: uint_eqs Let_def split: if_splits)
  moreover from b have "\<exists>w. uint32 (skip d4 4) = Inr (w, skip d4 8)
           \<and> mnSize e = take_bit 31 w
           \<and> (if bit w 31
                then \<exists>c. uint16 (skip d4 12) = Inr (c, skip d4 14)
                          \<and> mnCompressionType e = Some c
                else mnCompressionType e = None)
           \<and> d' = skip d4 (if bit w 31 then 16 else 14)"
    unfolding readEntryBody_def
    by (auto simp: uint_eqs Let_def skip_skip top_bit_32 low31_mask split: if_splits)
  ultimately show ?thesis using k low31_bound by (auto simp: low31_mask)
qed

theorem C5_index_bit_packing_witness:
  "readIndexEntry demo_flags None \<lparr>buffer = demo_dbpf, offset = 138\<rparr>
     = Inr (Some demo_entry2, \<lparr>buffer = demo_dbpf, offset = 166\<rparr>)
   \<and> (\<exists>d4 w. readEntryKey demo_flags \<lparr>buffer = demo_dbpf, offset = 138\<rparr>
                 = Inr (key demo_entry2, d4)
           \<and> uint32 (skip d4 4) = Inr (w, skip d4 8)
           \<and> mnSize demo_entry2 = w AND 0x7FFFFFFF
           \<and> mnSize demo_entry2 = take_bit 31 w
           \<and> unat (mnSize demo_entry2) \<le> 0x7FFFFFFF
           \<and> (if bit w 31
                then \<exists>c. uint16 (skip d4 12) = Inr (c, skip d4 14)
                          \<and> mnCompressionType demo_entry2 = Some c
                else mnCompressionType demo_entry2 = None)
           \<and> \<lparr>buffer = demo_dbpf, offset = 166\<rparr> = skip d4 (if bit w 31 then 16 else 14))"
  by (rule conjI [OF demo_second_entry C5_index_bit_packing [OF demo_second_entry]])

section \<open>The streaming reader\<close>

text \<open>
  Reading through a window of the file gives what reading the whole file gives, as long
  as the window holds the bytes that are read: 96 for the header, 16 for the flags, 32
  for an index record.
\<close>

lemma agree_mono: "agree file p sz lim rw rd \<Longrightarrow> lim \<le> lim' \<Longrightarrow> agree file p sz lim' rw rd"
  by (auto simp: agree_def split: sum.splits)

lemma agree_Inr: "windowOf file p sz W D \<Longrightarrow> offset W \<le> lim \<Longrightarrow> agree file p sz lim (Inr (x, W)) (Inr (x, D))"
  by (simp add: agree_def)

lemma agree_bind:
  assumes "agree file p sz lim1 m1 m2"
    and "\<And>x W' D'. windowOf file p sz W' D' \<Longrightarrow> offset W' \<le> lim1
            \<Longrightarrow> agree file p sz lim2 (f (x, W')) (g (x, D'))"
  shows "agree file p sz lim2 (ebind m1 f) (ebind m2 g)"
proof (cases m1)
  case (Inl e)
  then show ?thesis using assms(1) by (simp add: agree_def)
next
  case (Inr a)
  obtain x W' where a: "a = (x, W')" by (cases a)
  from assms(1) Inr a obtain D' where m2: "m2 = Inr (x, D')"
    and w: "windowOf file p sz W' D'" and l: "offset W' \<le> lim1"
    by (auto simp: agree_def split: sum.splits)
  show ?thesis using assms(2) [OF w l, of x] Inr a m2 by simp
qed

lemma windowOf_skip:
  "windowOf file p sz W D \<Longrightarrow> 0 \<le> n \<Longrightarrow> windowOf file p sz (skip W n) (skip D n)"
  by (simp add: windowOf_def skip_def)

lemma readWord_window:
  assumes "windowOf file p sz W D" "offset W + int n \<le> int sz" "0 < n"
  shows "agree file p sz (offset W + int n) (readWord n W) (readWord n D)"
proof -
  from assms(1) have bD: "buffer D = file" and bW: "buffer W = take sz (drop p file)"
    and oD: "offset D = int p + offset W" and o0: "0 \<le> offset W"
    by (simp_all add: windowOf_def)
  define a where "a = nat (offset W)"
  have a: "offset W = int a" using o0 by (simp add: a_def)
  have fit: "a + n \<le> sz" using assms(2) a by simp
  have c: "a + n \<le> length (take sz (drop p file)) \<longleftrightarrow> p + a + n \<le> length file"
    using fit assms(3) by auto
  have v: "take n (drop a (take sz (drop p file))) = take n (drop (p + a) file)"
    using fit by (simp add: drop_take min_def add.commute)
  show ?thesis
    using c v
    by (simp add: readWord_eq agree_def windowOf_def bD bW oD a nat_add_distrib skip_def add.assoc)
qed

lemma uint32_window:
  assumes "windowOf file p sz W D" "offset W + 4 \<le> int sz"
  shows "agree file p sz (offset W + 4) (uint32 W) (uint32 D)"
  using readWord_window [OF assms(1), of 4] assms(2) by (simp add: uint32_def)

lemma uint16_window:
  assumes "windowOf file p sz W D" "offset W + 2 \<le> int sz"
  shows "agree file p sz (offset W + 2) (uint16 W) (uint16 D)"
  using readWord_window [OF assms(1), of 2] assms(2) by (simp add: uint16_def)

lemma uint8_window:
  assumes "windowOf file p sz W D" "offset W + 1 \<le> int sz"
  shows "agree file p sz (offset W + 1) (uint8 W) (uint8 D)"
  using readWord_window [OF assms(1), of 1] assms(2) by (simp add: uint8_def)

lemma constOrRead_window:
  assumes "windowOf file p sz W D" "offset W + 4 \<le> int sz"
  shows "agree file p sz (offset W + 4) (constOrRead c W) (constOrRead c D)"
proof (cases c)
  case None
  then show ?thesis using uint32_window [OF assms] by (simp add: constOrRead_def)
next
  case (Some v)
  then show ?thesis using assms(1) by (simp add: constOrRead_def agree_def)
qed


lemma uint32_step:
  "windowOf file p sz W D \<Longrightarrow> offset W + 4 \<le> lim \<Longrightarrow> lim \<le> int sz
     \<Longrightarrow> agree file p sz lim (uint32 W) (uint32 D)"
  by (rule agree_mono [OF uint32_window]) simp_all

lemma uint16_step:
  "windowOf file p sz W D \<Longrightarrow> offset W + 2 \<le> lim \<Longrightarrow> lim \<le> int sz
     \<Longrightarrow> agree file p sz lim (uint16 W) (uint16 D)"
  by (rule agree_mono [OF uint16_window]) simp_all

lemma uint8_step:
  "windowOf file p sz W D \<Longrightarrow> offset W + 1 \<le> lim \<Longrightarrow> lim \<le> int sz
     \<Longrightarrow> agree file p sz lim (uint8 W) (uint8 D)"
  by (rule agree_mono [OF uint8_window]) simp_all

lemma constOrRead_step:
  "windowOf file p sz W D \<Longrightarrow> offset W + 4 \<le> lim \<Longrightarrow> lim \<le> int sz
     \<Longrightarrow> agree file p sz lim (constOrRead c W) (constOrRead c D)"
  by (rule agree_mono [OF constOrRead_window]) simp_all

lemma readIfSet_step:
  "windowOf file p sz W D \<Longrightarrow> offset W + 4 \<le> lim \<Longrightarrow> lim \<le> int sz
     \<Longrightarrow> agree file p sz lim (readIfSet c W) (readIfSet c D)"
  unfolding readIfSet_def
  apply (cases c; simp)
   apply (rule agree_bind [where ?lim1.0 = lim])
    apply (erule uint32_step; simp)
   apply (simp add: agree_def)
  apply (simp add: agree_def)
  done

lemma readEntryKey_window:
  "windowOf file p sz W D \<Longrightarrow> offset W + 16 \<le> int sz
     \<Longrightarrow> agree file p sz (offset W + 16) (readEntryKey flags W) (readEntryKey flags D)"
  unfolding readEntryKey_def
  apply (rule agree_bind [where ?lim1.0 = "offset W + 4"])
   apply (erule constOrRead_step; simp)
  apply (simp only: prod.case)
  apply (rule agree_bind [where ?lim1.0 = "offset W + 8"])
   apply (erule constOrRead_step; simp)
  apply (simp only: prod.case)
  apply (rule agree_bind [where ?lim1.0 = "offset W + 12"])
   apply (erule constOrRead_step; simp)
  apply (simp only: prod.case)
  apply (rule agree_bind [where ?lim1.0 = "offset W + 16"])
   apply (erule uint32_step; simp)
  apply (simp add: agree_def)
  done


lemma skipEntryBody_window:
  "windowOf file p sz W D \<Longrightarrow> offset W + 16 \<le> int sz
     \<Longrightarrow> agree file p sz (offset W + 16) (skipEntryBody W) (skipEntryBody D)"
  unfolding skipEntryBody_def
  apply (rule agree_bind [where ?lim1.0 = "offset W + 8"])
   apply (rule uint32_step [OF windowOf_skip]; simp)
  apply (simp add: agree_def Let_def windowOf_skip)
  done

lemma readEntryBody_window:
  "windowOf file p sz W D \<Longrightarrow> offset W + 16 \<le> int sz
     \<Longrightarrow> agree file p sz (offset W + 16) (readEntryBody k W) (readEntryBody k D)"
  unfolding readEntryBody_def
  apply (rule agree_bind [where ?lim1.0 = "offset W + 4"])
   apply (rule uint32_step; simp)
  apply (simp only: prod.case)
  apply (rule agree_bind [where ?lim1.0 = "offset W + 8"])
   apply (rule uint32_step; simp)
  apply (simp only: prod.case Let_def)
  apply (rule agree_bind [where ?lim1.0 = "offset W + 12"])
   apply (rule uint32_step; simp)
  apply (simp only: prod.case)
  apply (rule agree_bind [where ?lim1.0 = "offset W + 14"])
  subgoal for pos W1 D1 w W2 D2 sd W3 D3
    apply (cases "drop_bit 31 w = 1")
     apply simp
     apply (rule agree_bind [where ?lim1.0 = "offset W + 14"])
      apply (rule uint16_step; simp)
     apply (simp add: agree_def)
    apply (simp add: agree_def)
    done
  apply (auto simp: agree_def windowOf_skip)
  done

lemma readIndexEntry_window:
  "windowOf file p sz W D \<Longrightarrow> offset W + 32 \<le> int sz
     \<Longrightarrow> agree file p sz (offset W + 32)
           (readIndexEntry flags resFilter W) (readIndexEntry flags resFilter D)"
  unfolding readIndexEntry_def
  apply (rule agree_bind [where ?lim1.0 = "offset W + 16"])
   apply (rule agree_mono [OF readEntryKey_window]; simp)
  subgoal for k W1 D1
    apply (cases "rejected resFilter k")
     apply simp
     apply (rule agree_mono [OF skipEntryBody_window]; simp)
    apply simp
    apply (rule agree_mono [OF readEntryBody_window]; simp)
    done
  done

lemma makeList_window:
  "windowOf file p sz W D \<Longrightarrow> offset W + 32 * int n \<le> int sz
     \<Longrightarrow> agree file p sz (offset W + 32 * int n)
           (makeList n (readIndexEntry flags resFilter) W)
           (makeList n (readIndexEntry flags resFilter) D)"
proof (induction n arbitrary: W D)
  case 0
  then show ?case by (simp add: agree_def)
next
  case (Suc n)
  have r: "offset W + 32 \<le> int sz" using Suc.prems(2) by simp
  show ?case
    unfolding makeList.simps
  proof (rule agree_bind [where ?lim1.0 = "offset W + 32"])
    show "agree file p sz (offset W + 32)
            (readIndexEntry flags resFilter W) (readIndexEntry flags resFilter D)"
      by (rule readIndexEntry_window [OF Suc.prems(1) r])
  next
    fix x W' D'
    assume w: "windowOf file p sz W' D'" and l: "offset W' \<le> offset W + 32"
    have b: "offset W' + 32 * int n \<le> int sz" using l Suc.prems(2) by simp
    have m: "offset W' + 32 * int n \<le> offset W + 32 * int (Suc n)" using l by simp
    have "agree file p sz (offset W + 32 * int (Suc n))
            (makeList n (readIndexEntry flags resFilter) W')
            (makeList n (readIndexEntry flags resFilter) D')"
      by (rule agree_mono [OF Suc.IH [OF w b] m])
    then show "agree file p sz (offset W + 32 * int (Suc n))
            (case (x, W') of (x, d') \<Rightarrow>
               ebind (makeList n (readIndexEntry flags resFilter) d')
                 (\<lambda>(xs, d''). Inr (case x of None \<Rightarrow> xs | Some v \<Rightarrow> v # xs, d'')))
            (case (x, D') of (x, d') \<Rightarrow>
               ebind (makeList n (readIndexEntry flags resFilter) d')
                 (\<lambda>(xs, d''). Inr (case x of None \<Rightarrow> xs | Some v \<Rightarrow> v # xs, d'')))"
      by (auto simp: agree_def ebind_def split: sum.splits)
  qed
qed

lemma readDbpfFlags_window:
  "windowOf file p sz W D \<Longrightarrow> offset W + 16 \<le> int sz
     \<Longrightarrow> agree file p sz (offset W + 16) (readDbpfFlags W) (readDbpfFlags D)"
  unfolding readDbpfFlags_def
  apply (rule agree_bind [where ?lim1.0 = "offset W + 1"])
   apply (erule uint8_step; simp)
  apply (simp only: prod.case)
  apply (rule agree_bind [where ?lim1.0 = "offset W + 8"])
   apply (rule readIfSet_step [OF windowOf_skip]; simp)
  apply (simp only: prod.case)
  apply (rule agree_bind [where ?lim1.0 = "offset W + 12"])
   apply (erule readIfSet_step; simp)
  apply (simp only: prod.case)
  apply (rule agree_bind [where ?lim1.0 = "offset W + 16"])
   apply (erule readIfSet_step; simp)
  apply (simp add: agree_def)
  done


lemma header_window:
  "map_sum id fst (readDbpfHeader (newDecoder (take 96 file)) False)
     = map_sum id fst (readDbpfHeader (newDecoder file) False)"
  unfolding readDbpfHeader_def newDecoder_def charsUtf8_def
  by (auto simp: uint_eqs readBytes_def skip_def ebind_def Let_def min_def drop_take split: if_splits)

lemma readDbpfHeader_buffer:
  "readDbpfHeader d r = Inr (h, d') \<Longrightarrow> buffer d' = buffer d \<and> buffer d \<noteq> []"
  unfolding readDbpfHeader_def charsUtf8_def
  by (auto simp: uint_eqs readBytes_def skip_def ebind_def Let_def split: if_splits)

lemma readDbpfFlags_empty: "buffer W = [] \<Longrightarrow> readDbpfFlags W = Inl OutOfBounds"
  by (simp add: readDbpfFlags_def uint_eqs)

lemma readIndexEntry_empty:
  "buffer W = [] \<Longrightarrow> readIndexEntry flags resFilter W = Inl OutOfBounds"
  by (auto simp: readIndexEntry_def readEntryKey_def constOrRead_def uint_eqs
      split: option.splits)

lemma readPayloads_stream:
  assumes "\<forall>e\<in>set index. mnSize e \<noteq> 0"
  shows "buffer d = file \<Longrightarrow> readPayloads ext options d index = Inr res
          \<Longrightarrow> streamPayloads ext options file index = Inr res"
  using assms
proof (induction index arbitrary: d res)
  case Nil
  then show ?case by simp
next
  case (Cons e rest)
  from Cons.prems(2) obtain bs d' v vs where
    sl: "slice (seek d (uint (mnPosition e))) (unat (mnSize e)) = Inr (bs, d')"
    and gr: "getResource ext e bs options = Inr v"
    and rp: "readPayloads ext options d' rest = Inr vs"
    and r: "res = (key e, v) # vs"
    by (auto simp: ebind_Inr_iff)
  from sl Cons.prems(1) have
    bs: "bs = take (unat (mnSize e)) (drop (nat (uint (mnPosition e))) file)"
    and b': "buffer d' = file"
    and fit: "nat (uint (mnPosition e)) + unat (mnSize e) \<le> length file"
    by (auto simp: slice_def readBytes_def seek_def split: if_splits)
  have "unat (mnSize e) \<noteq> 0" using Cons.prems(3) by (simp add: unat_eq_0)
  then have "bs \<noteq> []" using bs fit by auto
  then have sb: "streamBuffer file (uint (mnPosition e)) (unat (mnSize e)) = Inr bs"
    using bs by (simp add: streamBuffer_def Let_def)
  have "streamPayloads ext options file rest = Inr vs"
    using Cons.IH [OF b' rp] Cons.prems(3) by simp
  then show ?case using sb gr r by simp
qed

lemma streamDbpf_agrees:
  assumes h: "readDbpfHeader (newDecoder file) False = Inr (header, d1)"
    and f: "readDbpfFlags (seek d1 (indexRecordPosition header)) = Inr (flags, d3)"
    and i: "readDbpfIndex d3 header flags (resourceFilter options) = Inr (index, d4)"
    and pl: "readPayloads ext options d4 index = Inr res"
    and nr: "\<not> recoveryMode options"
    and c0: "mnIndexRecordEntryCount header \<noteq> 0"
    and s0: "\<forall>e\<in>set index. mnSize e \<noteq> 0"
  shows "readDbpf ext file options = Inr res \<and> streamDbpf ext file options = Inr res"
proof -
  have mem: "readDbpf ext file options = Inr res"
    using h f i pl nr by (simp add: readDbpf_def)
  \<comment> \<open>the header\<close>
  from readDbpfHeader_buffer [OF h] have b1: "buffer d1 = file" and ne: "file \<noteq> []"
    by (simp_all add: newDecoder_def)
  have sd1: "streamDecoder file 0 96 = Inr (newDecoder (take 96 file))"
    using ne by (simp add: streamDecoder_def streamBuffer_def Let_def)
  have "map_sum id fst (readDbpfHeader (newDecoder (take 96 file)) False)
          = map_sum id fst (readDbpfHeader (newDecoder file) False)"
    by (rule header_window)
  with h obtain d1' where
    h': "readDbpfHeader (newDecoder (take 96 file)) False = Inr (header, d1')"
    by (cases "readDbpfHeader (newDecoder (take 96 file)) False") auto
  \<comment> \<open>the flags\<close>
  define P where "P = indexRecordPosition header"
  have P0: "0 \<le> P" by (simp add: P_def indexRecordPosition_def)
  define W2 where "W2 = newDecoder (take 16 (drop (nat P) file))"
  have w2: "windowOf file (nat P) 16 W2 (seek d1 P)"
    using P0 b1 by (simp add: windowOf_def W2_def newDecoder_def seek_def)
  have "agree file (nat P) 16 (offset W2 + 16) (readDbpfFlags W2) (readDbpfFlags (seek d1 P))"
    by (rule readDbpfFlags_window [OF w2]) (simp add: W2_def newDecoder_def)
  with f obtain W3 where f': "readDbpfFlags W2 = Inr (flags, W3)"
    and w3: "windowOf file (nat P) 16 W3 d3"
    by (auto simp: agree_def P_def split: sum.splits)
  have "buffer W2 \<noteq> []" using f' readDbpfFlags_empty [of W2] by auto
  then have sd2: "streamDecoder file P 16 = Inr W2"
    by (simp add: streamDecoder_def streamBuffer_def Let_def W2_def newDecoder_def)
  \<comment> \<open>the index\<close>
  define n where "n = unat (mnIndexRecordEntryCount header)"
  have n0: "n \<noteq> 0" using c0 by (simp add: n_def unat_eq_0)
  define Q where "Q = P + tell W3"
  have Q: "offset d3 = Q" and Q0: "0 \<le> Q" and b3: "buffer d3 = file"
    using w3 P0 by (simp_all add: windowOf_def Q_def tell_def)
  define W4 where "W4 = newDecoder (take (n * 32) (drop (nat Q) file))"
  have w4: "windowOf file (nat Q) (n * 32) W4 d3"
    using Q Q0 b3 by (simp add: windowOf_def W4_def newDecoder_def)
  have "agree file (nat Q) (n * 32) (offset W4 + 32 * int n)
          (makeList n (readIndexEntry flags (resourceFilter options)) W4)
          (makeList n (readIndexEntry flags (resourceFilter options)) d3)"
    by (rule makeList_window [OF w4]) (simp add: W4_def newDecoder_def)
  with i obtain W5 where
    i': "readDbpfIndex W4 header flags (resourceFilter options) = Inr (index, W5)"
    and w5: "windowOf file (nat Q) (n * 32) W5 d4"
    by (auto simp: agree_def readDbpfIndex_def n_def split: sum.splits)
  have "buffer W4 \<noteq> []"
  proof
    assume e: "buffer W4 = []"
    obtain m where m: "n = Suc m" using n0 by (cases n) auto
    have "makeList n (readIndexEntry flags (resourceFilter options)) W4 = Inl OutOfBounds"
      unfolding m makeList.simps using readIndexEntry_empty [OF e] by simp
    then show False using i' by (simp add: readDbpfIndex_def n_def)
  qed
  then have sd3: "streamDecoder file Q (n * 32) = Inr W4"
    by (simp add: streamDecoder_def streamBuffer_def Let_def W4_def newDecoder_def)
  \<comment> \<open>the payloads\<close>
  have b4: "buffer d4 = file" using w5 by (simp add: windowOf_def)
  have sp: "streamPayloads ext options file index = Inr res"
    by (rule readPayloads_stream [OF s0 b4 pl])
  have "streamDbpf ext file options = Inr res"
    unfolding streamDbpf_def
    using sd1 h' sd2 [unfolded P_def] f' sd3 [unfolded Q_def P_def n_def] i' sp
    by (simp add: Let_def P_def Q_def n_def)
  with mem show ?thesis by simp
qed


text \<open>
  C1 (the streaming reader returns what the in-memory reader returns, for every byte
  sequence and options) does not hold of the code. \<open>readDbpf\<close> hands its options to
  \<open>readDbpfHeader\<close>; \<open>streamDbpf\<close> calls \<open>readDbpfHeader\<close> without them. In recovery
  mode, on a package whose magic is overwritten, the in-memory reader skips the
  validation and returns the (empty) resource list; the streaming reader validates and
  throws "Not a package file." (inside the executor of its promise, which is then
  never resolved). Outside recovery mode the two agree wherever the in-memory reader
  returns and no read of the streaming reader is empty (\<open>streamDbpf_agrees\<close> above).
\<close>

theorem C1_stream_header_ignores_recovery_mode:
  "readDbpf demo_externals demo_bad_magic (no_options\<lparr>recoveryMode := True\<rparr>) = Inr []
   \<and> streamDbpf demo_externals demo_bad_magic (no_options\<lparr>recoveryMode := True\<rparr>)
       = Inl NotAPackageFile"
  by code_simp

section \<open>The string table writer\<close>

lemma measureEntries_eq:
  "measureEntries es (tb, tsl, sls) =
     (tb + (\<Sum>e\<leftarrow>es. byteLength (ks_string e) + 7),
      tsl + (\<Sum>e\<leftarrow>es. byteLength (ks_string e) + 1),
      sls @ map (\<lambda>e. byteLength (ks_string e)) es)"
  by (induction es arbitrary: tb tsl sls) (simp_all add: Let_def)

lemma writeBytes_Inr:
  assumes "writeBytes e bs = Inr e'"
  shows "length (enc_buffer e') = length (enc_buffer e)"
    and "enc_offset e' = enc_offset e + length bs"
    and "k \<le> enc_offset e \<Longrightarrow> take k (enc_buffer e') = take k (enc_buffer e)"
    and "take (length bs) (drop (enc_offset e) (enc_buffer e')) = bs"
  using assms by (auto simp: writeBytes_def split: if_splits)

lemma length_le_bytes [simp]: "length (le_bytes n v) = n"
  by (induction n arbitrary: v) simp_all

lemma le_nat_le_bytes: "v < 256 ^ n \<Longrightarrow> le_nat (le_bytes n v) = v"
proof (induction n arbitrary: v)
  case 0
  then show ?case by simp
next
  case (Suc n)
  have "v div 256 < 256 ^ n" using Suc.prems by (simp add: less_mult_imp_div_less mult.commute)
  then have "le_nat (le_bytes n (v div 256)) = v div 256" by (rule Suc.IH)
  moreover have "unat (word_of_nat (v mod 256) :: byte) = v mod 256"
    by (simp add: unat_of_nat)
  ultimately show ?case by simp
qed

lemma writeUInt_Inr:
  assumes "writeUInt n e v = Inr e'"
  shows "v < 256 ^ n" and "writeBytes e (le_bytes n v) = Inr e'"
  using assms by (auto simp: writeUInt_def split: if_splits)

lemma enc_skip_simps [simp]:
  "enc_buffer (enc_skip e n) = enc_buffer e" "enc_offset (enc_skip e n) = enc_offset e + n"
  by (simp_all add: enc_skip_def)

lemma writeEntries_frame:
  "writeEntries sls i es e = Inr e' \<Longrightarrow>
     length (enc_buffer e') = length (enc_buffer e)
     \<and> take (enc_offset e) (enc_buffer e') = take (enc_offset e) (enc_buffer e)"
proof (induction es arbitrary: i e)
  case Nil
  then show ?case by simp
next
  case (Cons entry rest)
  from Cons.prems obtain e1 e2 e3 where
    s1: "enc_uint32 e (ks_key entry) = Inr e1"
    and s2: "enc_uint16 (enc_skip e1 1) (sls ! i) = Inr e2"
    and s3: "enc_charsUtf8 e2 (ks_string entry) = Inr e3"
    and s4: "writeEntries sls (Suc i) rest e3 = Inr e'"
    by (auto simp: ebind_Inr_iff split: if_splits)
  note w1 = writeUInt_Inr(2) [OF s1 [unfolded enc_uint32_def]]
  note w2 = writeUInt_Inr(2) [OF s2 [unfolded enc_uint16_def]]
  note w3 = s3 [unfolded enc_charsUtf8_def]
  have o: "enc_offset e \<le> enc_offset e1" "enc_offset e \<le> enc_offset (enc_skip e1 1)"
      "enc_offset e \<le> enc_offset e2" "enc_offset e \<le> enc_offset e3"
    using writeBytes_Inr(2) [OF w1] writeBytes_Inr(2) [OF w2] writeBytes_Inr(2) [OF w3]
    by simp_all
  have l: "length (enc_buffer e3) = length (enc_buffer e)"
    using writeBytes_Inr(1) [OF w1] writeBytes_Inr(1) [OF w2] writeBytes_Inr(1) [OF w3]
    by simp
  have t1: "take (enc_offset e) (enc_buffer e1) = take (enc_offset e) (enc_buffer e)"
    using writeBytes_Inr(3) [OF w1, of "enc_offset e"] by simp
  have t2: "take (enc_offset e) (enc_buffer e2) = take (enc_offset e) (enc_buffer e1)"
    using writeBytes_Inr(3) [OF w2, of "enc_offset e"] o by simp
  have t3: "take (enc_offset e) (enc_buffer e3) = take (enc_offset e) (enc_buffer e2)"
    using writeBytes_Inr(3) [OF w3, of "enc_offset e"] o by simp
  from Cons.IH [OF s4] have
    l': "length (enc_buffer e') = length (enc_buffer e3)"
    and t': "take (enc_offset e3) (enc_buffer e') = take (enc_offset e3) (enc_buffer e3)"
    by simp_all
  have "take (enc_offset e) (enc_buffer e') = take (enc_offset e) (enc_buffer e3)"
  proof -
    have "take (enc_offset e) (take (enc_offset e3) (enc_buffer e'))
        = take (enc_offset e) (take (enc_offset e3) (enc_buffer e3))"
      using t' by simp
    then show ?thesis using o(4) by (simp add: min_absorb1)
  qed
  then show ?case using l l' t1 t2 t3 by simp
qed

lemma writeStbl_Inr:
  assumes "writeStbl entries = Inr buf"
  shows "length buf = 21 + (\<Sum>e\<leftarrow>entries. byteLength (ks_string e) + 7)"
    and "le_nat (take 4 (drop 17 buf)) = (\<Sum>e\<leftarrow>entries. byteLength (ks_string e) + 1)"
proof -
  define tb where "tb = 21 + (\<Sum>e\<leftarrow>entries. byteLength (ks_string e) + 7)"
  define tsl where "tsl = (\<Sum>e\<leftarrow>entries. byteLength (ks_string e) + 1)"
  define sls where "sls = map (\<lambda>e. byteLength (ks_string e)) entries"
  have m: "measureEntries entries (21, 0, []) = (tb, tsl, sls)"
    by (simp add: measureEntries_eq tb_def tsl_def sls_def)
  from assms obtain e1 e2 e3 e4 e5 where
    s1: "enc_charsUtf8 (newEncoder (replicate tb 0)) STBL_magic = Inr e1"
    and s2: "enc_uint16 e1 5 = Inr e2"
    and s3: "enc_uint64 (enc_skip e2 1) (length entries) = Inr e3"
    and s4: "enc_uint32 (enc_skip e3 2) tsl = Inr e4"
    and s5: "writeEntries sls 0 entries e4 = Inr e5"
    and b: "buf = enc_buffer e5"
    unfolding writeStbl_def m by (auto simp: ebind_Inr_iff)
  note w1 = s1 [unfolded enc_charsUtf8_def]
  note w2 = writeUInt_Inr(2) [OF s2 [unfolded enc_uint16_def]]
  note w3 = writeUInt_Inr(2) [OF s3 [unfolded enc_uint64_def]]
  note w4 = writeUInt_Inr(2) [OF s4 [unfolded enc_uint32_def]]
  have r: "tsl < 256 ^ 4" using writeUInt_Inr(1) [OF s4 [unfolded enc_uint32_def]] .
  have "length (utf8 STBL_magic) = 4"
    by (simp add: utf8_def utf8_char_def STBL_magic_def)
  then have o1: "enc_offset e1 = 4"
    using writeBytes_Inr(2) [OF w1] by (simp add: newEncoder_def)
  have o2: "enc_offset e2 = 6" using writeBytes_Inr(2) [OF w2] o1 by simp
  have o3: "enc_offset e3 = 15" using writeBytes_Inr(2) [OF w3] o2 by simp
  have o4: "enc_offset e4 = 21" using writeBytes_Inr(2) [OF w4] o3 by simp
  have l4: "length (enc_buffer e4) = tb"
    using writeBytes_Inr(1) [OF w1] writeBytes_Inr(1) [OF w2] writeBytes_Inr(1) [OF w3]
      writeBytes_Inr(1) [OF w4]
    by (simp add: newEncoder_def)
  from writeEntries_frame [OF s5] have
    l5: "length (enc_buffer e5) = length (enc_buffer e4)"
    and t5: "take 21 (enc_buffer e5) = take 21 (enc_buffer e4)"
    by (simp_all add: o4)
  show "length buf = 21 + (\<Sum>e\<leftarrow>entries. byteLength (ks_string e) + 7)"
    using b l5 l4 by (simp add: tb_def)
  have f4: "take 4 (drop 17 (enc_buffer e4)) = le_bytes 4 tsl"
    using writeBytes_Inr(4) [OF w4] o3 by simp
  have "take 4 (drop 17 (enc_buffer e5)) = take 4 (drop 17 (take 21 (enc_buffer e5)))"
    by (simp add: drop_take)
  also have "\<dots> = take 4 (drop 17 (take 21 (enc_buffer e4)))" using t5 by simp
  also have "\<dots> = take 4 (drop 17 (enc_buffer e4))" by (simp add: drop_take)
  finally have "take 4 (drop 17 buf) = le_bytes 4 tsl" using f4 b by simp
  then show "le_nat (take 4 (drop 17 buf)) = (\<Sum>e\<leftarrow>entries. byteLength (ks_string e) + 1)"
    using le_nat_le_bytes [OF r] by (simp add: tsl_def)
qed


lemma writeBytes_ok:
  assumes "enc_offset e + length bs \<le> length (enc_buffer e)"
  shows "\<exists>e'. writeBytes e bs = Inr e' \<and> enc_offset e' = enc_offset e + length bs
           \<and> length (enc_buffer e') = length (enc_buffer e)"
  using assms by (simp add: writeBytes_def)

lemma writeUInt_ok:
  assumes "v < 256 ^ n" "enc_offset e + n \<le> length (enc_buffer e)"
  shows "\<exists>e'. writeUInt n e v = Inr e' \<and> enc_offset e' = enc_offset e + n
           \<and> length (enc_buffer e') = length (enc_buffer e)"
  using assms writeBytes_ok [of e "le_bytes n v"] by (simp add: writeUInt_def)

lemma drop_eq_Cons:
  assumes "drop i xs = y # ys"
  shows "i < length xs" and "xs ! i = y" and "drop (Suc i) xs = ys"
proof -
  show i: "i < length xs" using assms by (cases "i < length xs") simp_all
  from Cons_nth_drop_Suc [OF i] assms show "xs ! i = y" and "drop (Suc i) xs = ys"
    by simp_all
qed

lemma writeEntries_returns:
  assumes "\<forall>e\<in>set es. ks_key e < 2 ^ 32 \<and> byteLength (ks_string e) < 2 ^ 16"
    and "drop i sls = map (\<lambda>e. byteLength (ks_string e)) es"
    and "enc_offset e + (\<Sum>e\<leftarrow>es. byteLength (ks_string e) + 7) \<le> length (enc_buffer e)"
  shows "\<exists>e'. writeEntries sls i es e = Inr e'"
  using assms
proof (induction es arbitrary: i e)
  case Nil
  then show ?case by simp
next
  case (Cons entry rest)
  let ?n = "byteLength (ks_string entry)"
  from Cons.prems(2) have d: "drop i sls = ?n # map (\<lambda>e. byteLength (ks_string e)) rest"
    by simp
  note dd = drop_eq_Cons [OF d]
  have k: "ks_key entry < 256 ^ 4" and n: "?n < 256 ^ 2"
    using Cons.prems(1) by simp_all
  have room: "enc_offset e + (?n + 7) + (\<Sum>e\<leftarrow>rest. byteLength (ks_string e) + 7)
                \<le> length (enc_buffer e)"
    using Cons.prems(3) by (simp add: add.assoc)
  from writeUInt_ok [OF k, of e] room obtain e1 where
    s1: "enc_uint32 e (ks_key entry) = Inr e1" and o1: "enc_offset e1 = enc_offset e + 4"
    and l1: "length (enc_buffer e1) = length (enc_buffer e)"
    by (auto simp: enc_uint32_def)
  from writeUInt_ok [OF n, of "enc_skip e1 1"] room o1 l1 obtain e2 where
    s2: "enc_uint16 (enc_skip e1 1) ?n = Inr e2" and o2: "enc_offset e2 = enc_offset e + 7"
    and l2: "length (enc_buffer e2) = length (enc_buffer e)"
    by (auto simp: enc_uint16_def)
  from writeBytes_ok [of e2 "utf8 (ks_string entry)"] room o2 l2 obtain e3 where
    s3: "enc_charsUtf8 e2 (ks_string entry) = Inr e3"
    and o3: "enc_offset e3 = enc_offset e + 7 + ?n"
    and l3: "length (enc_buffer e3) = length (enc_buffer e)"
    by (auto simp: enc_charsUtf8_def byteLength_def)
  have "\<exists>e'. writeEntries sls (Suc i) rest e3 = Inr e'"
  proof (rule Cons.IH)
    show "\<forall>e\<in>set rest. ks_key e < 2 ^ 32 \<and> byteLength (ks_string e) < 2 ^ 16"
      using Cons.prems(1) by simp
    show "drop (Suc i) sls = map (\<lambda>e. byteLength (ks_string e)) rest" by (rule dd(3))
    show "enc_offset e3 + (\<Sum>e\<leftarrow>rest. byteLength (ks_string e) + 7) \<le> length (enc_buffer e3)"
      using room o3 l3 by simp
  qed
  then show ?case using s1 s2 s3 dd(1) dd(2) by simp
qed

lemma writeStbl_returns:
  assumes "\<forall>e\<in>set entries. ks_key e < 2 ^ 32 \<and> byteLength (ks_string e) < 2 ^ 16"
    and "(\<Sum>e\<leftarrow>entries. byteLength (ks_string e) + 1) < 2 ^ 32"
  shows "\<exists>buf. writeStbl entries = Inr buf"
proof -
  define tb where "tb = 21 + (\<Sum>e\<leftarrow>entries. byteLength (ks_string e) + 7)"
  define tsl where "tsl = (\<Sum>e\<leftarrow>entries. byteLength (ks_string e) + 1)"
  define sls where "sls = map (\<lambda>e. byteLength (ks_string e)) entries"
  have m: "measureEntries entries (21, 0, []) = (tb, tsl, sls)"
    by (simp add: measureEntries_eq tb_def tsl_def sls_def)
  have len: "length entries \<le> tsl"
    unfolding tsl_def by (induction entries) simp_all
  have n64: "length entries < 256 ^ 8" and n32: "tsl < 256 ^ 4"
    using len assms(2) by (simp_all add: tsl_def)
  have m4: "length (utf8 STBL_magic) = 4"
    by (simp add: utf8_def utf8_char_def STBL_magic_def)
  from writeBytes_ok [of "newEncoder (replicate tb 0)" "utf8 STBL_magic"] m4 obtain e1 where
    s1: "enc_charsUtf8 (newEncoder (replicate tb 0)) STBL_magic = Inr e1"
    and o1: "enc_offset e1 = 4" and l1: "length (enc_buffer e1) = tb"
    by (auto simp: enc_charsUtf8_def newEncoder_def tb_def)
  from writeUInt_ok [of 5 2 e1] o1 l1 obtain e2 where
    s2: "enc_uint16 e1 5 = Inr e2" and o2: "enc_offset e2 = 6"
    and l2: "length (enc_buffer e2) = tb"
    by (auto simp: enc_uint16_def tb_def)
  from writeUInt_ok [OF n64, of "enc_skip e2 1"] o2 l2 obtain e3 where
    s3: "enc_uint64 (enc_skip e2 1) (length entries) = Inr e3" and o3: "enc_offset e3 = 15"
    and l3: "length (enc_buffer e3) = tb"
    by (auto simp: enc_uint64_def tb_def)
  from writeUInt_ok [OF n32, of "enc_skip e3 2"] o3 l3 obtain e4 where
    s4: "enc_uint32 (enc_skip e3 2) tsl = Inr e4" and o4: "enc_offset e4 = 21"
    and l4: "length (enc_buffer e4) = tb"
    by (auto simp: enc_uint32_def tb_def)
  have "\<exists>e5. writeEntries sls 0 entries e4 = Inr e5"
    by (rule writeEntries_returns) (use assms(1) o4 l4 in \<open>simp_all add: sls_def tb_def\<close>)
  then show ?thesis
    unfolding writeStbl_def m using s1 s2 s3 s4 by auto
qed


text \<open>
  C7: if the encoder returns a buffer, its length is exactly 21 plus the sum over the
  entries of (UTF-8 byte length of the string + 7), and the 32-bit little-endian field
  at offset 17 of the header (the total string length) is the sum over the entries of
  (UTF-8 byte length of the string + 1). The encoder does return a buffer whenever
  every key fits 32 bits, every string has fewer than 65536 UTF-8 bytes and the total
  string length fits 32 bits; beyond these bounds a numeric write throws.
\<close>

theorem C7_writeStbl_sizes:
  "(writeStbl entries = Inr buf \<longrightarrow>
      length buf = 21 + (\<Sum>e\<leftarrow>entries. byteLength (ks_string e) + 7)
      \<and> le_nat (take 4 (drop 17 buf)) = (\<Sum>e\<leftarrow>entries. byteLength (ks_string e) + 1))
   \<and> ((\<forall>e\<in>set entries. ks_key e < 2 ^ 32 \<and> byteLength (ks_string e) < 2 ^ 16)
        \<and> (\<Sum>e\<leftarrow>entries. byteLength (ks_string e) + 1) < 2 ^ 32 \<longrightarrow>
      (\<exists>b. writeStbl entries = Inr b))"
  using writeStbl_Inr [of entries buf] writeStbl_returns [of entries] by blast

theorem C7_writeStbl_sizes_witness:
  "\<exists>buf. writeStbl demo_stbl = Inr buf \<and> length buf = 39
          \<and> le_nat (take 4 (drop 17 buf)) = 6"
proof -
  have n: "map (\<lambda>e. byteLength (ks_string e)) demo_stbl = [2, 2]"
    by (simp add: demo_stbl_def byteLength_def utf8_def utf8_char_def)
  have s7: "(\<Sum>e\<leftarrow>demo_stbl. byteLength (ks_string e) + 7) = 18"
    and s1: "(\<Sum>e\<leftarrow>demo_stbl. byteLength (ks_string e) + 1) = 6"
    by (simp_all add: demo_stbl_def byteLength_def utf8_def utf8_char_def)
  have b: "\<forall>e\<in>set demo_stbl. ks_key e < 2 ^ 32 \<and> byteLength (ks_string e) < 2 ^ 16"
    by (simp add: demo_stbl_def byteLength_def utf8_def utf8_char_def)
  from C7_writeStbl_sizes [of demo_stbl] b s1 obtain buf where
    w: "writeStbl demo_stbl = Inr buf" by auto
  from C7_writeStbl_sizes [of demo_stbl buf] w s7 s1 have
    "length buf = 39 \<and> le_nat (take 4 (drop 17 buf)) = 6" by simp
  with w show ?thesis by blast
qed

section \<open>The DATA reader\<close>

text \<open>The literal is the ASCII text "Unnamed".\<close>

lemma Unnamed_ascii: "Unnamed = map (\<lambda>c. of_char c) ''Unnamed''"
  by (simp add: Unnamed_def)

text \<open>
  C8: for every named record (table info, schema or column) and every decoder, a name
  offset equal to the null sentinel -0x80000000 resolves to the seven bytes of
  "Unnamed" with no call on the decoder (no seek, no read), which is returned as it
  was, whatever the buffer and the cursor; the sentinel is not an offset: the position
  it would denote lies before the buffer for every field position below 0x80000000, and
  the string read there throws. Any other offset makes one seek, to (position of the
  offset field + relative offset), and one string read there, and resolves to the bytes
  that precede the first null byte at or after that position, with the cursor back
  where it was; the read throws where the position is negative or no null byte follows
  it in the buffer. \<open>readNamed\<close> is the result of \<open>readNamed_traced\<close>.
\<close>

theorem C8_readNamed:
  "(mnNameOffset named = - 0x80000000 \<longrightarrow>
      readNamed_traced d named = ([], Inr ([0x55, 0x6E, 0x6E, 0x61, 0x6D, 0x65, 0x64], d)))
   \<and> (mnNameOffset named = - 0x80000000 \<and> startof_mnNameOffset named < 0x80000000 \<longrightarrow>
      readString d (startof_mnNameOffset named + mnNameOffset named) = Inl OutOfBounds)
   \<and> (mnNameOffset named \<noteq> - 0x80000000 \<longrightarrow>
      readNamed_traced d named =
        (let p = startof_mnNameOffset named + mnNameOffset named in
         ([Call_savePos, Call_seek p, Call_string],
          if 0 \<le> p \<and> 0 \<in> set (drop (nat p) (buffer d))
          then Inr (takeWhile (\<lambda>b. b \<noteq> 0) (drop (nat p) (buffer d)), d)
          else Inl OutOfBounds)))
   \<and> readNamed d named = snd (readNamed_traced d named)"
  by (simp add: readNamed_def readNamed_traced_def RELOFFSET_NULL_def Unnamed_def
      readString_def readString_traced_def savePos_def traced_savePos_def traced_seek_def
      traced_string_def dec_string_def seek_def tell_def Let_def ebind_def)

theorem C8_readNamed_witness:
  "mnNameOffset demo_table = - 0x80000000
   \<and> startof_mnNameOffset demo_table < 0x80000000
   \<and> readNamed_traced \<lparr>buffer = demo_data, offset = 16\<rparr> demo_table
       = ([], Inr ([0x55, 0x6E, 0x6E, 0x61, 0x6D, 0x65, 0x64],
                   \<lparr>buffer = demo_data, offset = 16\<rparr>))
   \<and> readString \<lparr>buffer = demo_data, offset = 16\<rparr>
         (startof_mnNameOffset demo_table + mnNameOffset demo_table) = Inl OutOfBounds
   \<and> mnNameOffset (mColumn demo_schema ! 1) \<noteq> - 0x80000000
   \<and> readNamed_traced \<lparr>buffer = demo_data, offset = 16\<rparr> (mColumn demo_schema ! 1)
       = ([Call_savePos, Call_seek 42, Call_string],
          Inr ([0x62], \<lparr>buffer = demo_data, offset = 16\<rparr>))
   \<and> readNamed \<lparr>buffer = demo_data, offset = 16\<rparr> (mColumn demo_schema ! 1)
       = Inr ([0x62], \<lparr>buffer = demo_data, offset = 16\<rparr>)
   \<and> readNamed_traced \<lparr>buffer = [0x41, 0x42, 0x43, 0x44], offset = 0\<rparr>
         \<lparr>startof_mnNameOffset = 0, mnNameOffset = 2\<rparr>
       = ([Call_savePos, Call_seek 2, Call_string], Inl OutOfBounds)"
  using C8_readNamed [of demo_table "\<lparr>buffer = demo_data, offset = 16\<rparr>"]
    C8_readNamed [of "mColumn demo_schema ! 1" "\<lparr>buffer = demo_data, offset = 16\<rparr>"]
    C8_readNamed [of "\<lparr>startof_mnNameOffset = 0, mnNameOffset = 2\<rparr>"
      "\<lparr>buffer = [0x41, 0x42, 0x43, 0x44], offset = 0\<rparr>"]
  by (simp add: demo_table_def demo_schema_def demo_data_def RELOFFSET_NULL_def)

text \<open>
  Whatever the alignment function and whatever the columns, the alignment after a row
  with at least one column is the maximum of the alignment before it and the alignment
  of the type of the table: the types of the columns play no part in it.
\<close>

lemma structRow_loop_alignment:
  "structRow_loop align table schema rowStart k n (row, a, d) = Inr (row', a', d')
     \<Longrightarrow> a' = (if n = 0 then a else max a (align (ti_mnDataType table)))"
proof (induction n arbitrary: k row a d)
  case 0
  then show ?case by simp
next
  case (Suc n)
  let ?c = "align (ti_mnDataType table)"
  from Suc.prems obtain row1 d1 where
    rest: "structRow_loop align table schema rowStart (Suc k) n
             (row1, (if ?c > a then ?c else a), d1) = Inr (row', a', d')"
    by (auto simp add: ebind_Inr_iff Let_def split: if_splits)
  from Suc.IH [OF rest] show ?case by (auto simp add: max_def)
qed

text \<open>
  C2 (after a row the cursor goes to rowStart + schema size and is then aligned to the
  maximum alignment among the row's column types) does not hold of the code: inside
  the loop over the columns, \<open>columnAlignment\<close> is computed from the type of the table,
  not from the type of the column. The alignment function below is the
  \<open>getAlignment\<close> of data/data-types.ts. For the table of type Object (alignment 4) below,
  whose rows have an Int64 column (alignment 8) and a schema size of 12, the first row
  starts at 16 and ends at 28; the code aligns 28 to 4 and reads the second row at 28
  (its values are the bytes at 28 and 36), where the alignment to 8 of the claim gives
  32.
\<close>

theorem C2_row_alignment_uses_table_type:
  "structTableData alignmentOfCode [demo_schema] demo_table
       \<lparr>mValue = None, mRow = Some []\<rparr> \<lparr>buffer = demo_data, offset = 16\<rparr>
     = Inr (\<lparr>mValue = None,
             mRow = Some [[([0x61], RawValue Int64 [1, 0, 0, 0, 0, 0, 0, 0]),
                           ([0x62], RawValue UInt32 [2, 0, 0, 0])],
                          [([0x61], RawValue Int64 [3, 0, 0, 0, 0, 0, 0, 0]),
                           ([0x62], RawValue UInt32 [4, 0, 0, 0])]]\<rparr>,
            \<lparr>buffer = demo_data, offset = 40\<rparr>)
   \<and> tell (seekToAlignment \<lparr>buffer = demo_data, offset = 28\<rparr>
             (int (max (alignmentOfCode 8) (alignmentOfCode 7)) - 1)) = 32"
  by code_simp

section \<open>Raw resources\<close>

text \<open>
  Under the contract of the external compression, every call keeps a cache whose
  uncompressed form is the one the resource started with.
\<close>

lemma cacheBuffer_cases: "cacheBuffer cache w this = this \<or> cacheBuffer cache w this = this\<lparr>bufferCache := Some w\<rparr>"
  by (simp add: cacheBuffer_def)

lemma cacheDecodesAs_cacheBuffer:
  assumes "cacheDecodesAs ext v this" "uncompressedForm ext w = v"
  shows "cacheDecodesAs ext v (cacheBuffer cache w this)"
  using assms by (simp add: cacheDecodesAs_def cacheBuffer_def)

lemma getBuffer_keeps:
  assumes "cacheDecodesAs ext v this" "getBuffer ext ser this cache minify = Inr (b, this')"
  shows "cacheDecodesAs ext v this'"
proof -
  from assms(1) obtain c where c: "bufferCache this = Some c" and u: "uncompressedForm ext c = v"
    by (auto simp: cacheDecodesAs_def split: option.splits)
  show ?thesis
  proof (cases "compressionType c = Some Uncompressed")
    case True
    then show ?thesis using assms c by (simp add: getBuffer_def)
  next
    case False
    with assms(2) c have d: "decompressBuffer ext (cb_buffer c) (compressionType c) = Inr b"
      and t: "this' = cacheBuffer cache \<lparr>cb_buffer = b, compressionType = Some Uncompressed,
                           sizeDecompressed = length b\<rparr> this"
      by (auto simp: getBuffer_def ebind_Inr_iff)
    have "uncompressedForm ext \<lparr>cb_buffer = b, compressionType = Some Uncompressed,
                           sizeDecompressed = length b\<rparr> = v"
      using u d False by (simp add: uncompressedForm_def)
    then show ?thesis unfolding t using assms(1) by (rule cacheDecodesAs_cacheBuffer [rotated])
  qed
qed

lemma getCompressedBuffer_keeps:
  assumes rt: "codecRoundTrips ext"
    and "cacheDecodesAs ext v this"
    and "getCompressedBuffer ext ser this target cache minify = Inr (w, this')"
  shows "cacheDecodesAs ext v this'"
proof -
  from assms(2) obtain c where c: "bufferCache this = Some c" and u: "uncompressedForm ext c = v"
    by (auto simp: cacheDecodesAs_def split: option.splits)
  define t where "t = (case target of None \<Rightarrow> defaultCompressionType this | Some t \<Rightarrow> t)"
  show ?thesis
  proof (cases "compressionType c = Some t")
    case True
    then show ?thesis using assms(2,3) c by (simp add: getCompressedBuffer_def t_def Let_def)
  next
    case False
    with assms(3) c obtain db z where
      d: "decompressBuffer ext (cb_buffer c) (compressionType c) = Inr db"
      and z: "compressBuffer ext db t = Inr z"
      and t': "this' = cacheBuffer cache \<lparr>cb_buffer = z, compressionType = Some t,
                           sizeDecompressed = length db\<rparr> this"
      by (auto simp: getCompressedBuffer_def t_def Let_def ebind_Inr_iff)
    have v: "v = Inr db"
    proof (cases "compressionType c = Some Uncompressed")
      case True
      with d rt have "db = cb_buffer c" by (simp add: codecRoundTrips_def)
      then show ?thesis using u True by (simp add: uncompressedForm_def)
    next
      case False
      then show ?thesis using u d by (simp add: uncompressedForm_def)
    qed
    have "uncompressedForm ext \<lparr>cb_buffer = z, compressionType = Some t,
                           sizeDecompressed = length db\<rparr> = Inr db"
      using rt z by (auto simp: codecRoundTrips_def uncompressedForm_def split: if_splits)
    then show ?thesis unfolding t' v using assms(2) [unfolded v]
      by (rule cacheDecodesAs_cacheBuffer [rotated])
  qed
qed

lemma raw_step_keeps:
  assumes "codecRoundTrips ext" "cacheDecodesAs ext v this"
  shows "cacheDecodesAs ext v (raw_step ext this call)"
proof (cases call)
  case (GetBuffer cache minify)
  then show ?thesis using assms(2) getBuffer_keeps [OF assms(2)]
    by (auto split: sum.splits)
next
  case (GetCompressedBuffer target cache minify)
  then show ?thesis using assms(2) getCompressedBuffer_keeps [OF assms]
    by (auto split: sum.splits)
next
  case (SetDefaultCompressionType x)
  then show ?thesis using assms(2)
    by (auto simp: setDefaultCompressionType_def raw_clearBufferCacheIfSupported_def
        cacheDecodesAs_def Let_def split: option.splits)
next
  case OnChange
  then show ?thesis using assms(2) by (simp add: raw_onChange_def)
next
  case BufferGetter
  then show ?thesis using assms(2) getBuffer_keeps [OF assms(2)]
    by (auto split: sum.splits)
qed

lemma raw_run_keeps:
  assumes "codecRoundTrips ext"
  shows "cacheDecodesAs ext v this \<Longrightarrow> cacheDecodesAs ext v (raw_run ext this calls)"
  by (induction calls arbitrary: this) (simp_all add: raw_step_keeps [OF assms])

text \<open>Whatever the external compression does, no call removes the cache.\<close>

lemma raw_step_has_cache:
  assumes "bufferCache this \<noteq> None"
  shows "bufferCache (raw_step ext this call) \<noteq> None"
proof (cases call)
  case (GetBuffer cache minify)
  then show ?thesis using assms
    by (auto simp: getBuffer_def cacheBuffer_def ebind_Inr_iff split: sum.splits if_splits)
next
  case (GetCompressedBuffer target cache minify)
  then show ?thesis using assms
    by (auto simp: getCompressedBuffer_def cacheBuffer_def ebind_Inr_iff Let_def
        split: sum.splits if_splits)
next
  case (SetDefaultCompressionType x)
  then show ?thesis using assms
    by (auto simp: setDefaultCompressionType_def raw_clearBufferCacheIfSupported_def Let_def)
next
  case OnChange
  then show ?thesis using assms by (simp add: raw_onChange_def)
next
  case BufferGetter
  then show ?thesis using assms
    by (auto simp: getBuffer_def cacheBuffer_def ebind_Inr_iff split: sum.splits if_splits)
qed

lemma raw_run_has_cache:
  "bufferCache this \<noteq> None \<Longrightarrow> bufferCache (raw_run ext this calls) \<noteq> None"
proof (induction calls arbitrary: this)
  case Nil
  then show ?case by simp
next
  case (Cons c cs)
  have "bufferCache (raw_run ext (raw_step ext this c) cs) \<noteq> None"
    by (rule Cons.IH) (rule raw_step_has_cache [OF Cons.prems])
  then show ?case by simp
qed

lemma getBuffer_no_serialize:
  "bufferCache this \<noteq> None \<Longrightarrow>
     getBuffer ext ser this cache minify = getBuffer ext ser' this cache minify"
  by (auto simp: getBuffer_def)

lemma getCompressedBuffer_no_serialize:
  "bufferCache this \<noteq> None \<Longrightarrow>
     getCompressedBuffer ext ser this target cache minify
       = getCompressedBuffer ext ser' this target cache minify"
  by (auto simp: getCompressedBuffer_def Let_def)

lemma getBuffer_result:
  assumes "cacheDecodesAs ext v this"
  shows "map_sum id fst (getBuffer ext ser this cache minify) = v"
  using assms
  by (auto simp: cacheDecodesAs_def getBuffer_def uncompressedForm_def ebind_def
      split: option.splits sum.splits)

lemma demo_rt: "codecRoundTrips demo_codec"
  by (auto simp: codecRoundTrips_def demo_codec_def split: if_splits)


text \<open>
  C10, as stated, fails in its consequence that \<open>getBuffer\<close> always returns the bytes
  the resource was constructed with: for a wrapper that is not uncompressed,
  \<open>getBuffer\<close> returns the decompression of its bytes. Here the supplied bytes are
  9, 1, 2 and \<open>getBuffer\<close> returns 1, 2.
\<close>

theorem C10_getBuffer_decompresses_counterexample:
  "map_sum id fst (getBuffer demo_codec raw_serialize
       (newRawResource (Some demo_wrapper) None None) False False) = Inr [1, 2]
   \<and> cb_buffer demo_wrapper = [9, 1, 2]"
  by code_simp

text \<open>
  C10, amended: a RawResource constructed with a buffer wrapper \<open>w\<close> holds a buffer
  cache after every sequence of calls (\<open>getBuffer\<close>, \<open>getCompressedBuffer\<close>, the setter
  of \<open>defaultCompressionType\<close>, \<open>onChange\<close>, the getter \<open>buffer\<close>): caching calls may
  replace the cache, none removes it. So \<open>getBuffer\<close> and \<open>getCompressedBuffer\<close> give
  the same result whatever \<open>_serialize\<close> does: its throwing body is never reached. And
  \<open>getBuffer\<close> always returns the uncompressed form of the supplied wrapper (its bytes
  if it is uncompressed, their decompression otherwise, or the decompression's
  exception), given that the external compression round-trips; for a resource made by
  \<open>RawResource.from\<close>, whose wrapper is uncompressed, it returns the supplied bytes.
\<close>

theorem C10_raw_resource_keeps_cache:
  "bufferCache (raw_run ext (newRawResource (Some w) rsn dct) calls) \<noteq> None
   \<and> getBuffer ext serialize (raw_run ext (newRawResource (Some w) rsn dct) calls) cache minify
       = getBuffer ext raw_serialize (raw_run ext (newRawResource (Some w) rsn dct) calls)
           cache minify
   \<and> getCompressedBuffer ext serialize (raw_run ext (newRawResource (Some w) rsn dct) calls)
         target cache minify
       = getCompressedBuffer ext raw_serialize
           (raw_run ext (newRawResource (Some w) rsn dct) calls) target cache minify
   \<and> (codecRoundTrips ext \<longrightarrow>
        map_sum id fst
          (getBuffer ext raw_serialize (raw_run ext (newRawResource (Some w) rsn dct) calls)
             cache minify)
        = uncompressedForm ext w)
   \<and> map_sum id fst (getBuffer ext raw_serialize (rawFrom buf rsn dct) cache minify) = Inr buf"
proof -
  let ?r = "raw_run ext (newRawResource (Some w) rsn dct) calls"
  have c: "bufferCache ?r \<noteq> None"
    by (rule raw_run_has_cache) (simp add: newRawResource_def)
  have d: "cacheDecodesAs ext (uncompressedForm ext w) ?r" if "codecRoundTrips ext"
    by (rule raw_run_keeps [OF that]) (simp add: cacheDecodesAs_def newRawResource_def)
  have f: "map_sum id fst (getBuffer ext raw_serialize (rawFrom buf rsn dct) cache minify)
             = Inr buf"
    by (simp add: rawFrom_def newRawResource_def getBuffer_def)
  show ?thesis
    using c getBuffer_no_serialize [OF c] getCompressedBuffer_no_serialize [OF c]
      getBuffer_result [OF d] f
    by blast
qed

theorem C10_raw_resource_keeps_cache_witness:
  "codecRoundTrips demo_codec
   \<and> map_sum id fst
        (getBuffer demo_codec raw_serialize
           (raw_run demo_codec (newRawResource (Some demo_wrapper) None None) demo_calls)
           False False)
       = Inr [1, 2]"
proof -
  have u: "uncompressedForm demo_codec demo_wrapper = Inr [1, 2]"
    by code_simp
  show ?thesis
    using demo_rt C10_raw_resource_keeps_cache [of demo_codec demo_wrapper None None demo_calls]
      u
    by simp
qed

text \<open>
  The constructor takes whatever wrapper it is given. \<open>getResource\<close> gives it none
  where decompression fails in recovery mode (its variable \<open>bufferWrapper\<close> is never
  assigned); that resource has no cache and its \<open>getBuffer\<close> reaches \<open>_serialize\<close>.
\<close>

lemma getResource_raw_without_cache:
  "getResource demo_codec demo_entry2 []
       (no_options\<lparr>recoveryMode := True, decompressBuffers := True\<rparr>)
     = Inr (Raw (newRawResource None (Some (CouldNotDecompress (Some 0x5A42))) (Some 0x5A42)))
   \<and> getBuffer demo_codec raw_serialize
        (newRawResource None (Some (CouldNotDecompress (Some 0x5A42))) (Some 0x5A42))
        False False
      = Inl CannotSerializeRaw"
  by code_simp


section \<open>Multi-value cells\<close>

text \<open>
  \<open>addValues\<close> keeps the invariant (it sets the owner of each cell it pushes), and a
  cell that has the invariant does not throw the child-owner error itself.
\<close>

lemma ownsValues_addValues:
  "ownsValues h this \<Longrightarrow> ownsValues (addValues h this cells) this"
proof (induction cells arbitrary: h)
  case Nil
  then show ?case by simp
next
  case (Cons cell rest)
  let ?h1 = "h(cell := (h cell)\<lparr>owner := Some this\<rparr>)"
  let ?h2 = "?h1(this := (?h1 this)\<lparr>cell_values := cell_values (?h1 this) @ [Some cell]\<rparr>)"
  have "ownsValues ?h2 this"
    using Cons.prems
    by (auto simp: ownsValues_def list_all_iff split: option.splits)
  then have "ownsValues (addValues ?h2 this rest) this" by (rule Cons.IH)
  then show ?case by (simp add: Let_def)
qed

lemma validate_loop_owned:
  assumes "list_all (\<lambda>x. case x of None \<Rightarrow> True | Some v \<Rightarrow> owner (h v) = Some this) vs"
    and "\<And>v. validateValue h v \<noteq> Inl CacheProblem"
  shows "validate_loop validateValue h this ignoreCache vs \<noteq> Inl CacheProblem"
  using assms(1)
proof (induction vs)
  case Nil
  then show ?case by simp
next
  case (Cons x vs)
  show ?case
  proof (cases x)
    case None
    then show ?thesis using Cons by simp
  next
    case (Some v)
    then show ?thesis using Cons assms(2) [of v]
      by (cases "validateValue h v") simp_all
  qed
qed

lemma validate_owned:
  assumes "ownsValues h this" and "\<And>v. validateValue h v \<noteq> Inl CacheProblem"
  shows "validate validateValue h this ignoreCache \<noteq> Inl CacheProblem"
  using assms validate_loop_owned [of h this "cell_values (h this)" validateValue ignoreCache]
  by (simp add: validate_def ownsValues_def)

text \<open>
  C9 (each of \<open>addValues\<close>, \<open>addValueClones\<close>, \<open>removeValues\<close> and \<open>setValue\<close> keeps
  every cell of the values array owned by the multi-value cell, so that \<open>validate\<close>
  with cache checking never throws the child-owner error) does not hold of
  \<open>setValue\<close>: it stores the cell and does not set its owner, where \<open>addValues\<close> does.
  In the store below the vector cell 0 owns its only value; after
  \<open>setValue(0, cell 2)\<close> its value is a cell with no owner and \<open>validate()\<close> throws
  "Cache Problem: Child cell has another owner."; after \<open>addValues(cell 2)\<close> instead,
  the invariant holds and \<open>validate()\<close> returns.
\<close>

theorem C9_setValue_does_not_set_owner:
  "ownsValues demo_store 0
   \<and> validate (\<lambda>h a. Inr ()) demo_store 0 False = Inr ()
   \<and> \<not> ownsValues (setValue demo_store 0 0 2) 0
   \<and> validate (\<lambda>h a. Inr ()) (setValue demo_store 0 0 2) 0 False = Inl CacheProblem
   \<and> ownsValues (addValues demo_store 0 [2]) 0
   \<and> validate (\<lambda>h a. Inr ()) (addValues demo_store 0 [2]) 0 False = Inr ()"
  by code_simp

section \<open>The string table reader\<close>

lemma sameOutcome_bind:
  assumes "sameOutcome k m1 m2"
    and "\<And>x D1 D2. sameFrom k D1 D2 \<Longrightarrow> sameOutcome k (f (x, D1)) (g (x, D2))"
  shows "sameOutcome k (ebind m1 f) (ebind m2 g)"
proof (cases m1)
  case (Inl e)
  then show ?thesis using assms(1) by (simp add: sameOutcome_def)
next
  case (Inr a)
  obtain x D1 where a: "a = (x, D1)" by (cases a)
  from assms(1) Inr a obtain D2 where m2: "m2 = Inr (x, D2)" and w: "sameFrom k D1 D2"
    by (auto simp: sameOutcome_def split: sum.splits)
  show ?thesis using assms(2) [OF w, of x] Inr a m2 by simp
qed

lemma sameFrom_skip: "sameFrom k D1 D2 \<Longrightarrow> 0 \<le> n \<Longrightarrow> sameFrom k (skip D1 n) (skip D2 n)"
  by (simp add: sameFrom_def skip_def)

lemma readBytes_sameFrom:
  assumes "sameFrom k D1 D2"
  shows "sameOutcome k (readBytes D1 n) (readBytes D2 n)"
proof -
  from assms have o: "offset D1 = offset D2" and k: "int k \<le> offset D1"
    and l: "length (buffer D1) = length (buffer D2)"
    and d: "drop k (buffer D1) = drop k (buffer D2)"
    by (simp_all add: sameFrom_def)
  define a where "a = nat (offset D1) - k"
  have a: "nat (offset D1) = a + k" using k by (simp add: a_def)
  have "drop (a + k) (buffer D1) = drop (a + k) (buffer D2)"
    using d by (metis drop_drop)
  then have "take n (drop (nat (offset D1)) (buffer D1)) = take n (drop (nat (offset D2)) (buffer D2))"
    using a o by simp
  then show ?thesis
    using o l k by (simp add: readBytes_def sameOutcome_def sameFrom_def d)
qed

lemma readWord_sameFrom:
  "sameFrom k D1 D2 \<Longrightarrow> sameOutcome k (readWord n D1) (readWord n D2)"
  unfolding readWord_def
  apply (rule sameOutcome_bind)
   apply (erule readBytes_sameFrom)
  apply (simp add: sameOutcome_def)
  done

lemma readStblEntries_sameFrom:
  "sameFrom k D1 D2 \<Longrightarrow> sameOutcome k (readStblEntries n i D1) (readStblEntries n i D2)"
proof (induction n arbitrary: i D1 D2)
  case 0
  then show ?case by (simp add: sameOutcome_def)
next
  case (Suc n)
  show ?case
    unfolding readStblEntries.simps uint32_def uint16_def charsUtf8_def
    apply (rule sameOutcome_bind)
     apply (rule readWord_sameFrom [OF Suc.prems])
    apply (simp only: prod.case)
    apply (rule sameOutcome_bind)
     apply (rule readWord_sameFrom [OF sameFrom_skip]; simp)
    apply (simp only: prod.case)
    apply (rule sameOutcome_bind)
     apply (erule readBytes_sameFrom)
    apply (simp only: prod.case)
    apply (rule sameOutcome_bind)
     apply (erule Suc.IH)
    apply (simp add: sameOutcome_def)
    done
qed

lemma readStbl_recovery_ignores_header:
  assumes "length hdr = 7" "length hdr' = 7"
  shows "readStbl (hdr @ rest) True = readStbl (hdr' @ rest) True"
proof -
  let ?D1 = "skip (newDecoder (hdr @ rest)) 7" and ?D2 = "skip (newDecoder (hdr' @ rest)) 7"
  have s: "sameFrom 7 ?D1 ?D2"
    using assms by (simp add: sameFrom_def skip_def newDecoder_def)
  have "sameOutcome 7
          (ebind (uint64 ?D1) (\<lambda>(mnNumEntries, d2).
             ebind (uint32 (skip d2 2)) (\<lambda>(mnStringLength, d3).
               readStblEntries (unat mnNumEntries) 0 d3)))
          (ebind (uint64 ?D2) (\<lambda>(mnNumEntries, d2).
             ebind (uint32 (skip d2 2)) (\<lambda>(mnStringLength, d3).
               readStblEntries (unat mnNumEntries) 0 d3)))"
    unfolding uint64_def uint32_def
    apply (rule sameOutcome_bind)
     apply (rule readWord_sameFrom [OF s])
    apply (simp only: prod.case)
    apply (rule sameOutcome_bind)
     apply (rule readWord_sameFrom [OF sameFrom_skip]; simp)
    apply (simp only: prod.case)
    apply (erule readStblEntries_sameFrom)
    done
  then show ?thesis
    by (auto simp: readStbl_def readStblHeader_def sameOutcome_def ebind_def
        split: sum.splits prod.splits)
qed

lemma readStblHeader_strict:
  assumes "readStblHeader (newDecoder buf) False = Inr d'"
  shows "d' = skip (newDecoder buf) 7" and "take 4 buf = STBL_bytes"
    and "le_word (take 2 (drop 4 buf)) = (5 :: 16 word)"
  using assms
  by (auto simp: readStblHeader_def charsUtf8_def readBytes_def uint_eqs ebind_def skip_def
      newDecoder_def split: if_splits)

lemma readStblHeader_valid:
  assumes "take 4 buf = STBL_bytes \<and> le_word (take 2 (drop 4 buf)) = (5 :: 16 word)
           \<and> 6 \<le> length buf"
  shows "readStblHeader (newDecoder buf) False = readStblHeader (newDecoder buf) True"
  using assms
  by (simp add: readStblHeader_def charsUtf8_def readBytes_def uint_eqs ebind_def skip_def
      newDecoder_def)

lemma readStbl_strict_Inr:
  assumes "readStbl buf False = Inr es"
  shows "take 4 buf = STBL_bytes \<and> le_word (take 2 (drop 4 buf)) = (5 :: 16 word)
         \<and> readStbl buf True = Inr es"
proof -
  from assms obtain d' where h: "readStblHeader (newDecoder buf) False = Inr d'"
    by (auto simp: readStbl_def ebind_def split: sum.splits)
  note hs = readStblHeader_strict [OF h]
  have "readStblHeader (newDecoder buf) True = Inr d'"
    using hs(1) by (simp add: readStblHeader_def)
  then have "readStbl buf True = readStbl buf False"
    using h by (simp add: readStbl_def)
  then show ?thesis using hs(2,3) assms by simp
qed


text \<open>
  C6, as stated (a corrupt header makes the decoder throw whether or not recovery mode
  is requested), fails on the decoder the tests describe: in recovery mode the table
  below, whose magic is overwritten by zeros, decodes to its entry.
\<close>

theorem C6_corrupt_header_recovered_counterexample:
  "readStbl demo_stbl_bad_magic True
     = Inr [\<lparr>se_id = 0, se_key = 0x7E08629A, se_value = [0x48, 0x69]\<rparr>]
   \<and> take 4 demo_stbl_bad_magic \<noteq> STBL_bytes"
  by code_simp

text \<open>
  C6, amended: without recovery mode the decoder returns only for a buffer whose magic
  is "STBL" and whose version is 5, so a corrupt header throws; with recovery mode the
  first seven bytes (magic, version, compressed flag) are not validated: the result
  does not depend on them. Recovery mode tolerates nothing else: on a buffer whose
  magic and version are valid the result, a table or an exception, is the same in both
  modes.
\<close>

theorem C6_stbl_header_fatal_unless_recovery:
  "(readStbl buf False = Inr es \<longrightarrow>
      take 4 buf = STBL_bytes \<and> le_word (take 2 (drop 4 buf)) = (5 :: 16 word)
      \<and> readStbl buf True = Inr es)
   \<and> (length hdr = 7 \<and> length hdr' = 7 \<longrightarrow>
        readStbl (hdr @ rest) True = readStbl (hdr' @ rest) True)
   \<and> (take 4 buf = STBL_bytes \<and> le_word (take 2 (drop 4 buf)) = (5 :: 16 word)
        \<and> 6 \<le> length buf \<longrightarrow>
        readStbl buf True = readStbl buf False)"
proof -
  have a: "readStbl buf False = Inr es \<longrightarrow>
      take 4 buf = STBL_bytes \<and> le_word (take 2 (drop 4 buf)) = (5 :: 16 word)
      \<and> readStbl buf True = Inr es"
    using readStbl_strict_Inr [of buf es] by blast
  have b: "length hdr = 7 \<and> length hdr' = 7 \<longrightarrow>
        readStbl (hdr @ rest) True = readStbl (hdr' @ rest) True"
    using readStbl_recovery_ignores_header [of hdr hdr' rest] by blast
  have c: "take 4 buf = STBL_bytes \<and> le_word (take 2 (drop 4 buf)) = (5 :: 16 word)
        \<and> 6 \<le> length buf \<longrightarrow>
        readStbl buf True = readStbl buf False"
    using readStblHeader_valid [of buf] by (simp add: readStbl_def)
  from a b c show ?thesis by blast
qed

theorem C6_stbl_header_fatal_unless_recovery_witness:
  "readStbl demo_stbl_bytes False
     = Inr [\<lparr>se_id = 0, se_key = 0x7E08629A, se_value = [0x48, 0x69]\<rparr>]
   \<and> take 4 demo_stbl_bytes = STBL_bytes
   \<and> readStbl demo_stbl_bytes True
     = Inr [\<lparr>se_id = 0, se_key = 0x7E08629A, se_value = [0x48, 0x69]\<rparr>]
   \<and> readStbl (take 7 demo_stbl_bad_magic @ drop 7 demo_stbl_bytes) True
     = readStbl (take 7 demo_stbl_bytes @ drop 7 demo_stbl_bytes) True
   \<and> take 4 (take 25 demo_stbl_bytes) = STBL_bytes
   \<and> le_word (take 2 (drop 4 (take 25 demo_stbl_bytes))) = (5 :: 16 word)
   \<and> 6 \<le> length (take 25 demo_stbl_bytes)
   \<and> readStbl (take 25 demo_stbl_bytes) False = Inl OutOfBounds
   \<and> readStbl (take 25 demo_stbl_bytes) True = Inl OutOfBounds"
proof -
  have s: "readStbl demo_stbl_bytes False
     = Inr [\<lparr>se_id = 0, se_key = 0x7E08629A, se_value = [0x48, 0x69]\<rparr>]"
    by code_simp
  have l: "length (take 7 demo_stbl_bad_magic) = 7 \<and> length (take 7 demo_stbl_bytes) = 7"
    by code_simp
  have v: "take 4 (take 25 demo_stbl_bytes) = STBL_bytes
     \<and> le_word (take 2 (drop 4 (take 25 demo_stbl_bytes))) = (5 :: 16 word)
     \<and> 6 \<le> length (take 25 demo_stbl_bytes)"
    by code_simp
  have t: "readStbl (take 25 demo_stbl_bytes) False = Inl OutOfBounds"
    by code_simp
  show ?thesis
    using s l v t
      C6_stbl_header_fatal_unless_recovery [of demo_stbl_bytes _
        "take 7 demo_stbl_bad_magic" "take 7 demo_stbl_bytes" "drop 7 demo_stbl_bytes"]
      C6_stbl_header_fatal_unless_recovery [of "take 25 demo_stbl_bytes" _ "[]" "[]" "[]"]
    by simp
qed

end
